theory Spec2Isabelle
  imports Complex_Main "HOL-Library.AList"
begin

section \<open>Light State Management: the manager of \<^verbatim>\<open>__init__.py\<close>\<close>

text \<open>
  The integration keeps, per light, a snapshot of its state and a few attributes
  (\<^verbatim>\<open>LightStateManager._states\<close>), and per motion sensor a flag
  (\<^verbatim>\<open>LightStateManager._motion_active\<close>). Service calls, a timer and state-change
  events drive it. Each handler is modelled as a function from the manager to the
  manager after the call, the effects the call had on the host in the order they
  happened, and the exception that ended it, if any. Handlers run without interleaving.
\<close>

subsection \<open>Values and dictionaries\<close>

text \<open>Python values that occur as attributes, configuration values and payloads.\<close>

datatype pyval =
    VNone
  | VBool bool
  | VInt int
  | VFloat real
  | VStr string
  | VList "pyval list"
  | VDict "(string \<times> pyval) list"

text \<open>
  A Python \<^verbatim>\<open>dict\<close> is an association list in insertion order. A well-formed one
  has distinct keys.
\<close>

type_synonym ('k, 'v) dict = "('k \<times> 'v) list"

definition dict_getitem :: "('k, 'v) dict \<Rightarrow> 'k \<Rightarrow> 'v option" where
  \<comment> \<open>\<^verbatim>\<open>d[k]\<close> with \<^verbatim>\<open>None\<close> for the KeyError; also \<^verbatim>\<open>k in d\<close>.\<close>
  "dict_getitem d k = map_of d k"

definition dict_setitem :: "('k, 'v) dict \<Rightarrow> 'k \<Rightarrow> 'v \<Rightarrow> ('k, 'v) dict" where
  \<comment> \<open>\<^verbatim>\<open>d[k] = v\<close>: overwrite in place, or append.\<close>
  "dict_setitem d k v = AList.update k v d"

definition dict_pop :: "('k, 'v) dict \<Rightarrow> 'k \<Rightarrow> ('k, 'v) dict" where
  \<comment> \<open>\<^verbatim>\<open>d.pop(k, None)\<close>, the popped value dropped.\<close>
  "dict_pop d k = AList.delete k d"

definition dict_update :: "('k, 'v) dict \<Rightarrow> ('k, 'v) dict \<Rightarrow> ('k, 'v) dict" where
  \<comment> \<open>\<^verbatim>\<open>d.update(other)\<close>.\<close>
  "dict_update d other = fold (\<lambda>kv acc. dict_setitem acc (fst kv) (snd kv)) other d"

definition dict_values :: "('k, 'v) dict \<Rightarrow> 'v list" where
  "dict_values d = map snd d"

definition startswith :: "string \<Rightarrow> string \<Rightarrow> bool" where
  \<comment> \<open>\<^verbatim>\<open>s.startswith(p)\<close>\<close>
  "startswith s p = (take (length p) s = p)"

subsection \<open>Constants of \<^verbatim>\<open>const.py\<close> and of the host\<close>

definition DOMAIN :: string where "DOMAIN = ''light_state_management''"

definition DEFAULT_TRANSITION :: pyval where "DEFAULT_TRANSITION = VFloat 1"
definition DEFAULT_SAVE_INTERVAL :: int where "DEFAULT_SAVE_INTERVAL = 300"

definition SERVICE_SAVE_STATE :: string where "SERVICE_SAVE_STATE = ''save_state''"
definition SERVICE_RESTORE_STATE :: string where "SERVICE_RESTORE_STATE = ''restore_state''"
definition SERVICE_CLEAR_STATES :: string where "SERVICE_CLEAR_STATES = ''clear_states''"

definition ATTR_BRIGHTNESS :: string where "ATTR_BRIGHTNESS = ''brightness''"
definition ATTR_COLOR_TEMP :: string where "ATTR_COLOR_TEMP = ''color_temp''"
definition ATTR_HS_COLOR :: string where "ATTR_HS_COLOR = ''hs_color''"
definition ATTR_RGB_COLOR :: string where "ATTR_RGB_COLOR = ''rgb_color''"
definition ATTR_XY_COLOR :: string where "ATTR_XY_COLOR = ''xy_color''"
definition ATTR_EFFECT :: string where "ATTR_EFFECT = ''effect''"

definition EVENT_STATE_SAVED :: string where "EVENT_STATE_SAVED = ''light_state_saved''"
definition EVENT_STATE_RESTORED :: string where "EVENT_STATE_RESTORED = ''light_state_restored''"

text \<open>The values of \<^verbatim>\<open>homeassistant.const\<close> that \<^verbatim>\<open>__init__.py\<close> imports.\<close>

definition STATE_ON :: string where "STATE_ON = ''on''"
definition SERVICE_TURN_ON :: string where "SERVICE_TURN_ON = ''turn_on''"
definition EVENT_STATE_CHANGED :: string where "EVENT_STATE_CHANGED = ''state_changed''"

subsection \<open>The host's objects\<close>

text \<open>\<^verbatim>\<open>homeassistant.core.State\<close>: the state string and the attribute mapping.\<close>

record ha_state =
  state :: string
  attributes :: "string \<Rightarrow> pyval option"

text \<open>The data of a state-changed event.\<close>

record event =
  entity_id :: string
  new_state :: "ha_state option"

text \<open>
  \<^verbatim>\<open>ServiceCall(domain, service, {ATTR_ENTITY_ID: entity_ids})\<close>; the schemas
  make the entity list a required key.
\<close>

datatype service_call = ServiceCall string string "string list"

fun call_entity_ids :: "service_call \<Rightarrow> string list" where
  \<comment> \<open>\<^verbatim>\<open>call.data[ATTR_ENTITY_ID]\<close>\<close>
  "call_entity_ids (ServiceCall d s ids) = ids"

text \<open>
  The mapping of a config entry (\<^verbatim>\<open>entry.data\<close>, \<^verbatim>\<open>entry.options\<close>) with the four
  keys of the config flow; \<open>None\<close> is an absent key.
\<close>

record entry_data =
  lights :: "string list option"
  motion_sensors :: "string list option"
  transition :: "pyval option"
  save_interval :: "int option"

record config_entry =
  data :: entry_data
  options :: entry_data

datatype exn =
    KeyError string
  | AttributeError string
  | ServiceCallError string

text \<open>What a handler does to the host, in order.\<close>

datatype effect =
    AsyncRegister string string
    \<comment> \<open>\<^verbatim>\<open>hass.services.async_register(domain, service, handler, schema)\<close>\<close>
  | TrackTimeInterval int
    \<comment> \<open>\<^verbatim>\<open>async_track_time_interval(hass, self._handle_interval_save, seconds)\<close>\<close>
  | AsyncListen string "string list"
    \<comment> \<open>\<^verbatim>\<open>hass.bus.async_listen(event_type, handle_motion)\<close>, with the sensors the closure holds\<close>
  | Fire string "(string, pyval) dict"
    \<comment> \<open>\<^verbatim>\<open>hass.bus.fire(event_type, event_data)\<close>\<close>
  | AsyncCall string string "(string, pyval) dict"
    \<comment> \<open>\<^verbatim>\<open>await hass.services.async_call(domain, service, service_data, blocking=True)\<close>\<close>
  | CreateTask service_call
    \<comment> \<open>\<^verbatim>\<open>hass.async_create_task(self._handle_restore_state(call))\<close>\<close>

text \<open>
  What the manager reads from the host: the state machine, and how a blocking
  service call ends (\<open>None\<close>: acknowledged; \<open>Some e\<close>: it raises \<open>e\<close>), which may
  depend on what the running handler has done so far.
\<close>

record hass =
  hass_states :: "string \<Rightarrow> ha_state option"
  async_call :: "effect list \<Rightarrow> string \<Rightarrow> string \<Rightarrow> (string, pyval) dict \<Rightarrow> exn option"

subsection \<open>\<^verbatim>\<open>LightStateManager\<close>\<close>

record manager =
  entry :: config_entry
  states :: "(string, (string, pyval) dict) dict"
  motion_active :: "(string, bool) dict"
  cancel_save_interval :: "int option"
  setup_complete :: bool

type_synonym result = "manager \<times> effect list \<times> exn option"

definition LightStateManager :: "config_entry \<Rightarrow> manager" where
  \<comment> \<open>\<^verbatim>\<open>__init__\<close>\<close>
  "LightStateManager e =
    \<lparr>entry = e, states = [], motion_active = [], cancel_save_interval = None,
     setup_complete = False\<rparr>"

text \<open>
  \<^verbatim>\<open>dt_util.timedelta(seconds=save_interval)\<close>, the argument \<^verbatim>\<open>async_setup\<close> builds
  for the timer. \<^verbatim>\<open>dt_util\<close> is \<^verbatim>\<open>homeassistant.util.dt\<close>, which binds the \<^verbatim>\<open>datetime\<close>
  module under the name \<^verbatim>\<open>dt\<close> and has no name \<^verbatim>\<open>timedelta\<close>: the attribute lookup
  raises, whatever the seconds.
\<close>

definition dt_util_timedelta :: "int \<Rightarrow> exn + int" where
  "dt_util_timedelta seconds =
    Inl (AttributeError ''module homeassistant.util.dt has no attribute timedelta'')"

text \<open>
  \<^verbatim>\<open>async_setup\<close>: the three services, then the timer when the interval is above 0,
  then the listener when motion sensors are configured, then the flag. An exception on
  the way leaves what was done before it and skips the rest.
\<close>

definition async_setup :: "manager \<Rightarrow> result" where
  "async_setup m =
    (let tr1 = [AsyncRegister DOMAIN SERVICE_SAVE_STATE,
                AsyncRegister DOMAIN SERVICE_RESTORE_STATE,
                AsyncRegister DOMAIN SERVICE_CLEAR_STATES];
         interval = (case save_interval (data (entry m)) of
                       None \<Rightarrow> DEFAULT_SAVE_INTERVAL | Some i \<Rightarrow> i);
         timer = (if interval > 0
                  then (case dt_util_timedelta interval of
                          Inl ex \<Rightarrow> Inl ex
                        | Inr td \<Rightarrow>
                            Inr (m\<lparr>cancel_save_interval := Some td\<rparr>,
                                 tr1 @ [TrackTimeInterval td]))
                  else Inr (m, tr1))
     in case timer of
          Inl ex \<Rightarrow> (m, tr1, Some ex)
        | Inr (m1, tr2) \<Rightarrow>
            (let tr3 = (case motion_sensors (data (entry m)) of
                          None \<Rightarrow> tr2
                        | Some ms \<Rightarrow>
                            if ms \<noteq> [] then tr2 @ [AsyncListen EVENT_STATE_CHANGED ms]
                            else tr2)
             in (m1\<lparr>setup_complete := True\<rparr>, tr3, None)))"

definition light_attrs :: "string list" where
  \<comment> \<open>the tuple \<^verbatim>\<open>_get_light_state\<close> loops over\<close>
  "light_attrs = [ATTR_BRIGHTNESS, ATTR_COLOR_TEMP, ATTR_HS_COLOR, ATTR_RGB_COLOR,
                  ATTR_XY_COLOR, ATTR_EFFECT]"

definition get_light_state :: "ha_state \<Rightarrow> (string, pyval) dict" where
  "get_light_state st =
    fold (\<lambda>attr dat. case attributes st attr of
                       None \<Rightarrow> dat
                     | Some v \<Rightarrow> dict_setitem dat attr v)
         light_attrs [(''state'', VStr (state st))]"

fun save_loop :: "hass \<Rightarrow> manager \<Rightarrow> effect list \<Rightarrow> string list \<Rightarrow> result" where
  "save_loop h m tr [] = (m, tr, None)"
| "save_loop h m tr (eid # rest) =
    (if \<not> startswith eid ''light.'' then save_loop h m tr rest
     else case hass_states h eid of
        None \<Rightarrow> save_loop h m tr rest
      | Some st \<Rightarrow>
          (let m' = m\<lparr>states := dict_setitem (states m) eid (get_light_state st)\<rparr>
           in case dict_getitem (states m') eid of
                None \<Rightarrow> (m', tr, Some (KeyError eid))
              | Some snap \<Rightarrow>
                  save_loop h m'
                    (tr @ [Fire EVENT_STATE_SAVED
                             [(''entity_id'', VStr eid), (''state'', VDict snap)]])
                    rest))"

definition handle_save_state :: "hass \<Rightarrow> manager \<Rightarrow> service_call \<Rightarrow> result" where
  "handle_save_state h m call = save_loop h m [] (call_entity_ids call)"

definition restore_service_data ::
  "string \<Rightarrow> pyval \<Rightarrow> (string, pyval) dict \<Rightarrow> (string, pyval) dict" where
  \<comment> \<open>the \<^verbatim>\<open>service_data\<close> of one turn-on\<close>
  "restore_service_data eid trn state_data =
    dict_update [(''entity_id'', VStr eid), (''transition'', trn)]
                (filter (\<lambda>kv. fst kv \<noteq> ''state'') state_data)"

fun restore_loop ::
  "hass \<Rightarrow> manager \<Rightarrow> pyval \<Rightarrow> effect list \<Rightarrow> string list \<Rightarrow> result" where
  "restore_loop h m trn tr [] = (m, tr, None)"
| "restore_loop h m trn tr (eid # rest) =
    (case dict_getitem (states m) eid of
       None \<Rightarrow> restore_loop h m trn tr rest
     | Some state_data \<Rightarrow>
        (case dict_getitem state_data ''state'' of
           None \<Rightarrow> (m, tr, Some (KeyError ''state''))
         | Some s \<Rightarrow>
            if s \<noteq> VStr STATE_ON then restore_loop h m trn tr rest
            else
              (let service_data = restore_service_data eid trn state_data;
                   tr1 = tr @ [AsyncCall ''light'' SERVICE_TURN_ON service_data]
               in case async_call h tr ''light'' SERVICE_TURN_ON service_data of
                    Some ex \<Rightarrow> (m, tr1, Some ex)
                  | None \<Rightarrow>
                      restore_loop h m trn
                        (tr1 @ [Fire EVENT_STATE_RESTORED
                                  [(''entity_id'', VStr eid), (''state'', VDict state_data)]])
                        rest)))"

definition handle_restore_state :: "hass \<Rightarrow> manager \<Rightarrow> service_call \<Rightarrow> result" where
  "handle_restore_state h m call =
    (let entity_ids = call_entity_ids call;
         trn = (case transition (data (entry m)) of
                    None \<Rightarrow> DEFAULT_TRANSITION | Some t \<Rightarrow> t)
     in restore_loop h m trn [] entity_ids)"

definition handle_clear_states :: "hass \<Rightarrow> manager \<Rightarrow> service_call \<Rightarrow> result" where
  "handle_clear_states h m call =
    (m\<lparr>states := fold (\<lambda>eid d. dict_pop d eid) (call_entity_ids call) (states m)\<rparr>,
     [], None)"

definition config_lights :: "manager \<Rightarrow> string list" where
  \<comment> \<open>\<^verbatim>\<open>self.entry.data.get(CONF_LIGHTS, [])\<close>\<close>
  "config_lights m = (case lights (data (entry m)) of None \<Rightarrow> [] | Some ls \<Rightarrow> ls)"

definition handle_interval_save :: "hass \<Rightarrow> manager \<Rightarrow> int \<Rightarrow> result" where
  "handle_interval_save h m now =
    (if \<not> setup_complete m then (m, [], None)
     else handle_save_state h m
            (ServiceCall DOMAIN SERVICE_SAVE_STATE (config_lights m)))"

definition handle_motion_change :: "manager \<Rightarrow> result" where
  "handle_motion_change m =
    (if \<not> setup_complete m then (m, [], None)
     else if list_ex (\<lambda>b. b) (dict_values (motion_active m))
       then (m, [CreateTask (ServiceCall DOMAIN SERVICE_RESTORE_STATE (config_lights m))],
             None)
       else (m, [], None))"

definition handle_motion :: "string list \<Rightarrow> manager \<Rightarrow> event \<Rightarrow> result" where
  \<comment> \<open>the closure of \<^verbatim>\<open>async_setup\<close>, over the \<^verbatim>\<open>motion_sensors\<close> it captured\<close>
  "handle_motion sensors m ev =
    (if entity_id ev \<notin> set sensors then (m, [], None)
     else case new_state ev of
        None \<Rightarrow> (m, [], None)
      | Some ns \<Rightarrow>
          handle_motion_change
            (m\<lparr>motion_active :=
                 dict_setitem (motion_active m) (entity_id ev) (state ns = STATE_ON)\<rparr>))"

subsection \<open>The options flow of \<^verbatim>\<open>config_flow.py\<close>\<close>

definition async_step_init :: "config_entry \<Rightarrow> entry_data option \<Rightarrow> config_entry" where
  \<comment> \<open>\<^verbatim>\<open>OptionsFlowHandler.async_step_init\<close>: with user input,
      \<^verbatim>\<open>async_create_entry(title="", data=user_input)\<close>, which the host stores as the
      entry's options; without, the form is shown and the entry stays as it is.\<close>
  "async_step_init e user_input =
    (case user_input of None \<Rightarrow> e | Some u \<Rightarrow> e\<lparr>options := u\<rparr>)"

subsection \<open>The host's timer\<close>

text \<open>
  The host calls the callback given to \<^verbatim>\<open>async_track_time_interval\<close> each time the
  interval elapses, and only while such a registration exists: the manager holds its
  cancel handle exactly when \<^verbatim>\<open>async_setup\<close> registered the callback.
\<close>

definition time_interval_fired :: "hass \<Rightarrow> manager \<Rightarrow> int \<Rightarrow> result" where
  "time_interval_fired h m now =
    (case cancel_save_interval m of
       None \<Rightarrow> (m, [], None)
     | Some i \<Rightarrow> handle_interval_save h m now)"

text \<open>Time passing: one host state and one time stamp per elapsed interval.\<close>

fun time_elapses :: "manager \<Rightarrow> (hass \<times> int) list \<Rightarrow> manager \<times> effect list" where
  "time_elapses m [] = (m, [])"
| "time_elapses m (hn # rest) =
    (case time_interval_fired (fst hn) m (snd hn) of
       (m1, tr1, ex) \<Rightarrow>
         (case time_elapses m1 rest of (m2, tr2) \<Rightarrow> (m2, tr1 @ tr2)))"

subsection \<open>Predicates of the specification\<close>

definition configured_transition :: "manager \<Rightarrow> pyval" where
  \<comment> \<open>\<^verbatim>\<open>self.entry.data.get(CONF_TRANSITION, DEFAULT_TRANSITION)\<close>\<close>
  "configured_transition m =
    (case transition (data (entry m)) of None \<Rightarrow> DEFAULT_TRANSITION | Some t \<Rightarrow> t)"

definition snapshot_on :: "manager \<Rightarrow> string \<Rightarrow> bool" where
  \<comment> \<open>the identifier has a stored snapshot whose state is the on value\<close>
  "snapshot_on m eid =
    (case dict_getitem (states m) eid of
       None \<Rightarrow> False
     | Some sd \<Rightarrow> dict_getitem sd ''state'' = Some (VStr STATE_ON))"

definition saveable :: "hass \<Rightarrow> string \<Rightarrow> bool" where
  \<comment> \<open>the identifier is in the light domain and the host reports a state for it\<close>
  "saveable h eid = (startswith eid ''light.'' \<and> hass_states h eid \<noteq> None)"

definition saved_snapshot :: "hass \<Rightarrow> string \<Rightarrow> (string, pyval) dict" where
  \<comment> \<open>what a save captures for the identifier\<close>
  "saved_snapshot h eid =
    (case hass_states h eid of None \<Rightarrow> [] | Some st \<Rightarrow> get_light_state st)"

definition saved_event :: "hass \<Rightarrow> string \<Rightarrow> effect" where
  "saved_event h eid =
    Fire EVENT_STATE_SAVED [(''entity_id'', VStr eid), (''state'', VDict (saved_snapshot h eid))]"

definition turn_on_command :: "manager \<Rightarrow> string \<Rightarrow> (string, pyval) dict \<Rightarrow> effect" where
  "turn_on_command m eid sd =
    AsyncCall ''light'' SERVICE_TURN_ON (restore_service_data eid (configured_transition m) sd)"

definition restored_event :: "string \<Rightarrow> (string, pyval) dict \<Rightarrow> effect" where
  "restored_event eid sd =
    Fire EVENT_STATE_RESTORED [(''entity_id'', VStr eid), (''state'', VDict sd)]"

definition effect_target :: "effect \<Rightarrow> pyval option" where
  \<comment> \<open>the \<^verbatim>\<open>entity_id\<close> a command or a notification carries\<close>
  "effect_target eff =
    (case eff of
       AsyncCall d s sd \<Rightarrow> dict_getitem sd ''entity_id''
     | Fire t d \<Rightarrow> dict_getitem d ''entity_id''
     | _ \<Rightarrow> None)"

definition snapshot_wf :: "(string, pyval) dict \<Rightarrow> bool" where
  \<comment> \<open>a snapshot as \<^verbatim>\<open>_get_light_state\<close> builds it: the state and some of the six attributes\<close>
  "snapshot_wf sd =
    (distinct (map fst sd) \<and> dict_getitem sd ''state'' \<noteq> None \<and>
     list_all (\<lambda>kv. fst kv = ''state'' \<or> fst kv \<in> set light_attrs) sd)"

definition store_wf :: "manager \<Rightarrow> bool" where
  "store_wf m =
    (distinct (map fst (states m)) \<and> list_all (\<lambda>kv. snapshot_wf (snd kv)) (states m))"

definition store_keys_light :: "manager \<Rightarrow> bool" where
  "store_keys_light m = list_all (\<lambda>kv. startswith (fst kv) ''light.'') (states m)"

definition with_entry :: "config_entry \<Rightarrow> result \<Rightarrow> result" where
  \<comment> \<open>the outcome of a handler, with the manager's entry replaced\<close>
  "with_entry e r = (case r of (m, tr, ex) \<Rightarrow> (m\<lparr>entry := e\<rparr>, tr, ex))"

definition with_setup_complete :: "bool \<Rightarrow> result \<Rightarrow> result" where
  \<comment> \<open>the outcome of a handler, with the manager's setup flag replaced\<close>
  "with_setup_complete b r =
    (case r of (m, tr, ex) \<Rightarrow> (m\<lparr>setup_complete := b\<rparr>, tr, ex))"

definition configured_save_interval :: "config_entry \<Rightarrow> int" where
  \<comment> \<open>\<^verbatim>\<open>self.entry.data.get(CONF_SAVE_INTERVAL, DEFAULT_SAVE_INTERVAL)\<close>\<close>
  "configured_save_interval e =
    (case save_interval (data e) of None \<Rightarrow> DEFAULT_SAVE_INTERVAL | Some i \<Rightarrow> i)"

subsection \<open>Example configuration and host\<close>

definition ex_entry :: config_entry where
  "ex_entry =
    \<lparr>data = \<lparr>lights = Some [''light.kitchen''],
             motion_sensors = Some [''binary_sensor.hall''],
             transition = Some (VFloat 2), save_interval = Some 0\<rparr>,
     options = \<lparr>lights = None, motion_sensors = None, transition = None,
                save_interval = None\<rparr>\<rparr>"

definition ex_entry_timer :: config_entry where
  \<comment> \<open>the same, with a periodic save every minute\<close>
  "ex_entry_timer = ex_entry\<lparr>data := (data ex_entry)\<lparr>save_interval := Some 60\<rparr>\<rparr>"

definition ex_options :: entry_data where
  "ex_options =
    \<lparr>lights = Some [''light.hall''], motion_sensors = Some [], transition = Some (VFloat 5),
     save_interval = Some 120\<rparr>"

definition ex_kitchen :: ha_state where
  "ex_kitchen =
    \<lparr>state = ''on'',
     attributes = [''brightness'' \<mapsto> VInt 200, ''friendly_name'' \<mapsto> VStr ''Kitchen'']\<rparr>"

definition ex_hass :: hass where
  "ex_hass =
    \<lparr>hass_states = [''light.kitchen'' \<mapsto> ex_kitchen],
     async_call = (\<lambda>tr d s sd. None)\<rparr>"

definition ex_hass_failing :: hass where
  "ex_hass_failing =
    \<lparr>hass_states = Map.empty,
     async_call = (\<lambda>tr d s sd. Some (ServiceCallError ''no acknowledgement''))\<rparr>"

definition ex_hass_flaky :: hass where
  \<comment> \<open>the first command of a handler is acknowledged, every later one fails\<close>
  "ex_hass_flaky =
    \<lparr>hass_states = Map.empty,
     async_call = (\<lambda>tr d s sd. if tr = [] then None
                                else Some (ServiceCallError ''no acknowledgement''))\<rparr>"

definition ex_manager :: manager where
  \<comment> \<open>after setup, with two snapshots in the store\<close>
  "ex_manager =
    \<lparr>entry = ex_entry,
     states = [(''light.kitchen'', [(''state'', VStr ''on''), (''brightness'', VInt 200)]),
               (''light.hall'', [(''state'', VStr ''off'')])],
     motion_active = [],
     cancel_save_interval = None,
     setup_complete = True\<rparr>"

definition ex_manager_both_on :: manager where
  "ex_manager_both_on =
    ex_manager\<lparr>states :=
      [(''light.kitchen'', [(''state'', VStr ''on''), (''brightness'', VInt 200)]),
       (''light.hall'', [(''state'', VStr ''on'')])]\<rparr>"

section \<open>Properties\<close>

lemmas const_defs =
  DOMAIN_def DEFAULT_TRANSITION_def DEFAULT_SAVE_INTERVAL_def
  SERVICE_SAVE_STATE_def SERVICE_RESTORE_STATE_def SERVICE_CLEAR_STATES_def
  ATTR_BRIGHTNESS_def ATTR_COLOR_TEMP_def ATTR_HS_COLOR_def ATTR_RGB_COLOR_def
  ATTR_XY_COLOR_def ATTR_EFFECT_def EVENT_STATE_SAVED_def EVENT_STATE_RESTORED_def
  STATE_ON_def SERVICE_TURN_ON_def EVENT_STATE_CHANGED_def



lemmas ex_defs = ex_entry_def ex_entry_timer_def ex_options_def ex_kitchen_def ex_hass_def
  ex_hass_failing_def ex_manager_def


subsection \<open>Dictionaries\<close>

lemma getitem_setitem:
  "dict_getitem (dict_setitem d k v) k' = (if k' = k then Some v else dict_getitem d k')"
  by (simp add: dict_getitem_def dict_setitem_def update_conv')

lemma distinct_setitem:
  "distinct (map fst d) \<Longrightarrow> distinct (map fst (dict_setitem d k v))"
  by (simp add: dict_setitem_def distinct_update)

lemma keys_setitem: "fst ` set (dict_setitem d k v) = insert k (fst ` set d)"
  by (simp add: dict_setitem_def dom_update)

lemma set_setitem_subset: "set (dict_setitem d k v) \<subseteq> insert (k, v) (set d)"
  unfolding dict_setitem_def by (induction d) auto

lemma getitem_filter:
  "dict_getitem (filter (\<lambda>kv. P (fst kv)) d) k = (if P k then dict_getitem d k else None)"
  unfolding dict_getitem_def by (induction d) auto

lemma fold_pop_filter:
  "fold (\<lambda>eid d. dict_pop d eid) ids d = filter (\<lambda>kv. fst kv \<notin> set ids) d"
proof (induction ids arbitrary: d)
  case Nil
  then show ?case by simp
next
  case (Cons a ids)
  have "dict_pop d a = filter (\<lambda>kv. fst kv \<noteq> a) d"
    by (auto simp: dict_pop_def AList.delete_eq intro: filter_cong)
  then show ?case using Cons by (simp add: conj_commute)
qed

lemma getitem_update:
  "dict_getitem (dict_update d other) k =
    (case dict_getitem (rev other) k of None \<Rightarrow> dict_getitem d k | Some v \<Rightarrow> Some v)"
proof (induction other arbitrary: d)
  case Nil
  then show ?case by (simp add: dict_update_def dict_getitem_def)
next
  case (Cons kv other)
  have "dict_update d (kv # other) = dict_update (dict_setitem d (fst kv) (snd kv)) other"
    by (simp add: dict_update_def)
  moreover have "dict_getitem (rev (kv # other)) k =
      (case dict_getitem (rev other) k of
         None \<Rightarrow> if k = fst kv then Some (snd kv) else None
       | Some v \<Rightarrow> Some v)"
    by (cases kv) (simp add: dict_getitem_def map_add_def split: option.splits)
  ultimately show ?case using Cons[of "dict_setitem d (fst kv) (snd kv)"]
    by (simp add: getitem_setitem split: option.splits)
qed

lemma distinct_dict_update:
  "distinct (map fst d) \<Longrightarrow> distinct (map fst (dict_update d other))"
  unfolding dict_update_def
  by (induction other arbitrary: d) (simp_all add: distinct_setitem)


subsection \<open>Snapshots\<close>

lemma attrs_fold_getitem:
  "dict_getitem
     (fold (\<lambda>attr dat. case attributes st attr of None \<Rightarrow> dat
                         | Some v \<Rightarrow> dict_setitem dat attr v) as d) k =
   (if k \<in> set as \<and> attributes st k \<noteq> None then attributes st k else dict_getitem d k)"
  by (induction as arbitrary: d) (auto simp: getitem_setitem split: option.splits)

lemma attrs_fold_distinct:
  "distinct (map fst d) \<Longrightarrow>
   distinct (map fst
     (fold (\<lambda>attr dat. case attributes st attr of None \<Rightarrow> dat
                         | Some v \<Rightarrow> dict_setitem dat attr v) as d))"
  by (induction as arbitrary: d) (auto simp: distinct_setitem split: option.splits)

lemma attrs_fold_keys:
  "fst ` set
     (fold (\<lambda>attr dat. case attributes st attr of None \<Rightarrow> dat
                         | Some v \<Rightarrow> dict_setitem dat attr v) as d)
   \<subseteq> fst ` set d \<union> set as"
proof (induction as arbitrary: d)
  case Nil
  then show ?case by simp
next
  case (Cons a as)
  show ?case
  proof (cases "attributes st a")
    case None
    then show ?thesis using Cons[of d] by auto
  next
    case (Some v)
    then show ?thesis using Cons[of "dict_setitem d a v"] by (auto simp: keys_setitem)
  qed
qed

lemma state_notin_light_attrs: "''state'' \<notin> set light_attrs"
  by (simp add: light_attrs_def const_defs)

lemma getitem_get_light_state:
  "dict_getitem (get_light_state st) k =
    (if k = ''state'' then Some (VStr (state st))
     else if k \<in> set light_attrs then attributes st k else None)"
proof -
  have base: "\<And>k'. dict_getitem [(''state'', VStr (state st))] k' =
      (if k' = ''state'' then Some (VStr (state st)) else None)"
    by (simp add: dict_getitem_def)
  show ?thesis
    using state_notin_light_attrs
    by (auto simp: get_light_state_def attrs_fold_getitem base)
qed

lemma distinct_get_light_state: "distinct (map fst (get_light_state st))"
  by (simp add: get_light_state_def attrs_fold_distinct)

lemma keys_get_light_state:
  "fst ` set (get_light_state st) \<subseteq> insert ''state'' (set light_attrs)"
  using attrs_fold_keys[of st light_attrs "[(''state'', VStr (state st))]"]
  by (simp add: get_light_state_def)

lemma snapshot_wf_get_light_state: "snapshot_wf (get_light_state st)"
  using keys_get_light_state[of st]
  by (auto simp: snapshot_wf_def distinct_get_light_state getitem_get_light_state
        list_all_iff)

subsection \<open>Save\<close>

lemma save_loop_eq:
  "save_loop h m tr ids =
    (m\<lparr>states := fold (\<lambda>eid d. dict_setitem d eid (saved_snapshot h eid))
                      (filter (saveable h) ids) (states m)\<rparr>,
     tr @ map (saved_event h) (filter (saveable h) ids), None)"
proof (induction ids arbitrary: m tr)
  case Nil
  then show ?case by simp
next
  case (Cons eid ids)
  show ?case
  proof (cases "saveable h eid")
    case False
    then show ?thesis using Cons by (auto simp: saveable_def)
  next
    case True
    then obtain st where st: "hass_states h eid = Some st" and lt: "startswith eid ''light.''"
      by (auto simp: saveable_def)
    then show ?thesis using True Cons
      by (simp add: getitem_setitem saved_snapshot_def saved_event_def)
  qed
qed


lemma save_loop_entry_irrelevant:
  "save_loop h (m\<lparr>entry := e\<rparr>) tr ids =
    (case save_loop h m tr ids of (m', tr', ex) \<Rightarrow> (m'\<lparr>entry := e\<rparr>, tr', ex))"
  by (simp add: save_loop_eq)

lemma fold_setitem_keys:
  "fst ` set (fold (\<lambda>eid d. dict_setitem d eid (f eid)) xs d) = fst ` set d \<union> set xs"
  by (induction xs arbitrary: d) (auto simp: keys_setitem)

lemma fold_setitem_distinct:
  "distinct (map fst d) \<Longrightarrow>
   distinct (map fst (fold (\<lambda>eid d. dict_setitem d eid (f eid)) xs d))"
  by (induction xs arbitrary: d) (auto simp: distinct_setitem)

lemma fold_setitem_getitem:
  "dict_getitem (fold (\<lambda>eid d. dict_setitem d eid (f eid)) xs d) k =
    (if k \<in> set xs then Some (f k) else dict_getitem d k)"
  by (induction xs arbitrary: d) (auto simp: getitem_setitem)

lemma fold_setitem_values:
  "set (fold (\<lambda>eid d. dict_setitem d eid (f eid)) xs d) \<subseteq> set d \<union> (\<lambda>k. (k, f k)) ` set xs"
proof (induction xs arbitrary: d)
  case Nil
  then show ?case by simp
next
  case (Cons a xs)
  show ?case using Cons[of "dict_setitem d a (f a)"] set_setitem_subset[of d a "f a"]
    by auto
qed

subsection \<open>Restore\<close>

lemma restore_loop_manager: "fst (restore_loop h m trn tr ids) = m"
  by (induction ids arbitrary: tr) (auto simp: Let_def split: option.splits)

lemma restore_loop_reads_store_only:
  "states m1 = states m2 \<Longrightarrow>
   snd (restore_loop h m1 trn tr ids) = snd (restore_loop h m2 trn tr ids)"
  by (induction ids arbitrary: tr) (auto simp: Let_def split: option.splits)

lemma restore_loop_same_store:
  assumes "states m1 = states m2"
  shows "restore_loop h m1 trn tr ids = (m1, snd (restore_loop h m2 trn tr ids))"
  using restore_loop_manager[of h m1 trn tr ids]
    restore_loop_reads_store_only[OF assms, of h trn tr ids]
  by (metis prod.collapse)

lemma restore_loop_append:
  "restore_loop h m trn tr xs = (m', tr', None) \<Longrightarrow>
   restore_loop h m trn tr (xs @ ys) = restore_loop h m trn tr' ys"
  by (induction xs arbitrary: tr) (auto simp: Let_def split: option.splits if_splits)

lemma restore_loop_effects:
  "restore_loop h m trn tr ids = (m', tr2, ex) \<Longrightarrow>
   \<exists>new. tr2 = tr @ new \<and>
     (\<forall>eff \<in> set new. \<exists>eid \<in> set ids. \<exists>sd.
        dict_getitem (states m) eid = Some sd \<and>
        dict_getitem sd ''state'' = Some (VStr STATE_ON) \<and>
        (eff = AsyncCall ''light'' SERVICE_TURN_ON (restore_service_data eid trn sd) \<or>
         eff = Fire EVENT_STATE_RESTORED [(''entity_id'', VStr eid), (''state'', VDict sd)]))"
proof (induction ids arbitrary: tr)
  case Nil
  then show ?case by simp
next
  case (Cons eid ids)
  show ?case
  proof (cases "dict_getitem (states m) eid")
    case None
    with Cons.prems have "restore_loop h m trn tr ids = (m', tr2, ex)" by simp
    from Cons.IH[OF this] show ?thesis by auto
  next
    case (Some sd)
    show ?thesis
    proof (cases "dict_getitem sd ''state''")
      case None
      with Some Cons.prems have "tr2 = tr" by simp
      then show ?thesis by simp
    next
      case st: (Some s)
      show ?thesis
      proof (cases "s = VStr STATE_ON")
        case False
        with Some st Cons.prems have "restore_loop h m trn tr ids = (m', tr2, ex)" by simp
        from Cons.IH[OF this] show ?thesis by auto
      next
        case True
        let ?c = "AsyncCall ''light'' SERVICE_TURN_ON (restore_service_data eid trn sd)"
        let ?f = "Fire EVENT_STATE_RESTORED [(''entity_id'', VStr eid), (''state'', VDict sd)]"
        show ?thesis
        proof (cases "async_call h tr ''light'' SERVICE_TURN_ON (restore_service_data eid trn sd)")
          case (Some err)
          with \<open>dict_getitem (states m) eid = Some sd\<close> st True Cons.prems
          have "tr2 = tr @ [?c]" by simp
          then show ?thesis using \<open>dict_getitem (states m) eid = Some sd\<close> st True by auto
        next
          case None
          with \<open>dict_getitem (states m) eid = Some sd\<close> st True Cons.prems
          have "restore_loop h m trn (tr @ [?c, ?f]) ids = (m', tr2, ex)" by simp
          from Cons.IH[OF this] obtain new where
            n: "tr2 = (tr @ [?c, ?f]) @ new" and
            a: "\<forall>eff \<in> set new. \<exists>eid \<in> set ids. \<exists>sd.
                  dict_getitem (states m) eid = Some sd \<and>
                  dict_getitem sd ''state'' = Some (VStr STATE_ON) \<and>
                  (eff = AsyncCall ''light'' SERVICE_TURN_ON (restore_service_data eid trn sd) \<or>
                   eff = Fire EVENT_STATE_RESTORED
                           [(''entity_id'', VStr eid), (''state'', VDict sd)])"
            by blast
          have "tr2 = tr @ (?c # ?f # new)" using n by simp
          moreover have "\<forall>eff \<in> set (?c # ?f # new). \<exists>eid' \<in> set (eid # ids). \<exists>sd.
                  dict_getitem (states m) eid' = Some sd \<and>
                  dict_getitem sd ''state'' = Some (VStr STATE_ON) \<and>
                  (eff = AsyncCall ''light'' SERVICE_TURN_ON (restore_service_data eid' trn sd) \<or>
                   eff = Fire EVENT_STATE_RESTORED
                           [(''entity_id'', VStr eid'), (''state'', VDict sd)])"
            using a \<open>dict_getitem (states m) eid = Some sd\<close> st True by auto
          ultimately show ?thesis by blast
        qed
      qed
    qed
  qed
qed


lemma handle_restore_state_loop:
  "handle_restore_state h m c =
     restore_loop h m (configured_transition m) [] (call_entity_ids c)"
  by (simp add: handle_restore_state_def configured_transition_def)

lemma handle_save_state_eq:
  "handle_save_state h m c =
    (m\<lparr>states := fold (\<lambda>eid d. dict_setitem d eid (saved_snapshot h eid))
                      (filter (saveable h) (call_entity_ids c)) (states m)\<rparr>,
     map (saved_event h) (filter (saveable h) (call_entity_ids c)), None)"
  by (simp add: handle_save_state_def save_loop_eq)

lemma getitem_rev:
  assumes "distinct (map fst d)"
  shows "dict_getitem (rev d) k = dict_getitem d k"
proof (cases "map_of d k")
  case None
  then have "map_of (rev d) k = None" by (simp add: map_of_eq_None_iff)
  with None show ?thesis by (simp add: dict_getitem_def)
next
  case (Some v)
  then have "(k, v) \<in> set (rev d)" by (auto dest: map_of_SomeD)
  moreover have "distinct (map fst (rev d))" using assms by (simp add: rev_map[symmetric])
  ultimately have "map_of (rev d) k = Some v" by simp
  with Some show ?thesis by (simp add: dict_getitem_def)
qed

lemma getitem_None_iff: "dict_getitem d k = None \<longleftrightarrow> k \<notin> fst ` set d"
  by (simp add: dict_getitem_def map_of_eq_None_iff)

lemma getitem_restore_service_data:
  assumes "distinct (map fst sd)" and "''entity_id'' \<notin> fst ` set sd"
    and "''transition'' \<notin> fst ` set sd"
  shows "dict_getitem (restore_service_data eid trn sd) k =
    (if k = ''entity_id'' then Some (VStr eid)
     else if k = ''transition'' then Some trn
     else if k = ''state'' then None else dict_getitem sd k)"
proof -
  let ?o = "filter (\<lambda>kv. fst kv \<noteq> ''state'') sd"
  have d: "distinct (map fst ?o)" using assms(1) by (simp add: distinct_map_filter)
  have o: "dict_getitem (rev ?o) k = (if k \<noteq> ''state'' then dict_getitem sd k else None)"
    using getitem_filter[of "\<lambda>k. k \<noteq> ''state''" sd k] by (simp add: getitem_rev[OF d])
  have e: "dict_getitem sd ''entity_id'' = None" "dict_getitem sd ''transition'' = None"
    using assms(2,3) by (simp_all add: getitem_None_iff)
  have b: "dict_getitem [(''entity_id'', VStr eid), (''transition'', trn)] k =
      (if k = ''entity_id'' then Some (VStr eid)
       else if k = ''transition'' then Some trn else None)"
    by (simp add: dict_getitem_def)
  show ?thesis
    unfolding restore_service_data_def getitem_update o b
    using e by (auto split: option.splits)
qed

lemma target_restore_service_data:
  assumes "''entity_id'' \<notin> fst ` set sd"
  shows "dict_getitem (restore_service_data eid trn sd) ''entity_id'' = Some (VStr eid)"
proof -
  let ?o = "filter (\<lambda>kv. fst kv \<noteq> ''state'') sd"
  have "''entity_id'' \<notin> fst ` set (rev ?o)" using assms by auto
  then have "dict_getitem (rev ?o) ''entity_id'' = None"
    by (rule getitem_None_iff[THEN iffD2])
  then show ?thesis
    unfolding restore_service_data_def getitem_update by (simp add: dict_getitem_def)
qed

lemma distinct_restore_service_data:
  "distinct (map fst (restore_service_data eid trn sd))"
  unfolding restore_service_data_def by (rule distinct_dict_update) simp

lemma reserved_notin_light_attrs:
  "''entity_id'' \<notin> set light_attrs" "''transition'' \<notin> set light_attrs"
  by (simp_all add: light_attrs_def const_defs)

lemma configured_transition_states [simp]:
  "configured_transition (m\<lparr>states := d\<rparr>) = configured_transition m"
  by (simp add: configured_transition_def)

lemma restore_single:
  assumes "dict_getitem (states m) eid = Some sd"
    and "dict_getitem sd ''state'' = Some (VStr STATE_ON)"
  shows "restore_loop h m trn tr [eid] =
       (m,
        tr @ AsyncCall ''light'' SERVICE_TURN_ON (restore_service_data eid trn sd) #
          (case async_call h tr ''light'' SERVICE_TURN_ON (restore_service_data eid trn sd) of
             None \<Rightarrow> [restored_event eid sd] | Some err \<Rightarrow> []),
        async_call h tr ''light'' SERVICE_TURN_ON (restore_service_data eid trn sd))"
  using assms
  by (simp add: restored_event_def Let_def split: option.splits)

text \<open>
  C1. Saving a light that is on and then restoring it issues one turn-on command whose
  payload holds the target, the configured transition and exactly those of the six
  attributes the light had when it was saved, each with its saved value.
\<close>

theorem save_then_restore_reproduces_captured_attributes:
  assumes "hass_states h eid = Some st"
    and "state st = STATE_ON"
    and "startswith eid ''light.''"
    and "eid \<in> set (call_entity_ids c)"
  shows "handle_restore_state h' (fst (handle_save_state h m c)) (ServiceCall d s [eid]) =
       (fst (handle_save_state h m c),
        turn_on_command m eid (get_light_state st) #
          (case async_call h' [] ''light'' SERVICE_TURN_ON
                  (restore_service_data eid (configured_transition m) (get_light_state st)) of
             None \<Rightarrow> [restored_event eid (get_light_state st)]
           | Some err \<Rightarrow> []),
        async_call h' [] ''light'' SERVICE_TURN_ON
          (restore_service_data eid (configured_transition m) (get_light_state st))) \<and>
     distinct (map fst (restore_service_data eid (configured_transition m) (get_light_state st))) \<and>
     (\<forall>k. dict_getitem
            (restore_service_data eid (configured_transition m) (get_light_state st)) k =
        (if k = ''entity_id'' then Some (VStr eid)
         else if k = ''transition'' then Some (configured_transition m)
         else if k \<in> set light_attrs then attributes st k
         else None))"
proof -
  let ?m1 = "fst (handle_save_state h m c)"
  let ?sd = "get_light_state st"
  let ?p = "restore_service_data eid (configured_transition m) ?sd"
  have sv: "saveable h eid" using assms(1,3) by (simp add: saveable_def)
  have snap: "dict_getitem (states ?m1) eid = Some ?sd"
    using sv assms(1,4)
    by (simp add: handle_save_state_eq fold_setitem_getitem saved_snapshot_def)
  have on: "dict_getitem ?sd ''state'' = Some (VStr STATE_ON)"
    using assms(2) by (simp add: getitem_get_light_state)
  have tr: "configured_transition ?m1 = configured_transition m"
    by (simp add: handle_save_state_eq)
  have keys: "''entity_id'' \<notin> fst ` set ?sd" "''transition'' \<notin> fst ` set ?sd"
    using keys_get_light_state[of st] reserved_notin_light_attrs by auto
  have run: "handle_restore_state h' ?m1 (ServiceCall d s [eid]) =
       (?m1,
        turn_on_command m eid ?sd #
          (case async_call h' [] ''light'' SERVICE_TURN_ON ?p of
             None \<Rightarrow> [restored_event eid ?sd] | Some err \<Rightarrow> []),
        async_call h' [] ''light'' SERVICE_TURN_ON ?p)"
    using restore_single[OF snap on, of h' "configured_transition m" "[]"]
    by (simp only: handle_restore_state_loop tr call_entity_ids.simps append_Nil
          turn_on_command_def)
  have look: "\<forall>k. dict_getitem ?p k =
        (if k = ''entity_id'' then Some (VStr eid)
         else if k = ''transition'' then Some (configured_transition m)
         else if k \<in> set light_attrs then attributes st k
         else None)"
    using getitem_restore_service_data[OF distinct_get_light_state keys,
        where eid = eid and trn = "configured_transition m"]
      state_notin_light_attrs
    by (auto simp: getitem_get_light_state)
  show ?thesis
  proof (intro conjI)
    show "handle_restore_state h' ?m1 (ServiceCall d s [eid]) =
       (?m1,
        turn_on_command m eid ?sd #
          (case async_call h' [] ''light'' SERVICE_TURN_ON ?p of
             None \<Rightarrow> [restored_event eid ?sd] | Some err \<Rightarrow> []),
        async_call h' [] ''light'' SERVICE_TURN_ON ?p)"
      by (rule run)
    show "distinct (map fst ?p)" by (rule distinct_restore_service_data)
    show "\<forall>k. dict_getitem ?p k =
        (if k = ''entity_id'' then Some (VStr eid)
         else if k = ''transition'' then Some (configured_transition m)
         else if k \<in> set light_attrs then attributes st k
         else None)"
      by (rule look)
  qed
qed


theorem save_then_restore_kitchen_witness:
  "hass_states ex_hass ''light.kitchen'' = Some ex_kitchen \<and>
   state ex_kitchen = STATE_ON \<and>
   startswith ''light.kitchen'' ''light.'' \<and>
   handle_restore_state ex_hass
      (fst (handle_save_state ex_hass (LightStateManager ex_entry)
              (ServiceCall DOMAIN SERVICE_SAVE_STATE [''light.kitchen''])))
      (ServiceCall DOMAIN SERVICE_RESTORE_STATE [''light.kitchen'']) =
     (fst (handle_save_state ex_hass (LightStateManager ex_entry)
              (ServiceCall DOMAIN SERVICE_SAVE_STATE [''light.kitchen''])),
      [AsyncCall ''light'' ''turn_on''
         [(''entity_id'', VStr ''light.kitchen''), (''transition'', VFloat 2),
          (''brightness'', VInt 200)],
       Fire ''light_state_restored''
         [(''entity_id'', VStr ''light.kitchen''),
          (''state'', VDict [(''state'', VStr ''on''), (''brightness'', VInt 200)])]],
      None) \<and>
   dict_getitem
      (restore_service_data ''light.kitchen''
         (configured_transition (LightStateManager ex_entry)) (get_light_state ex_kitchen))
      ''effect'' = None"
proof -
  have h1: "hass_states ex_hass ''light.kitchen'' = Some ex_kitchen"
    by (simp add: ex_defs)
  have h2: "state ex_kitchen = STATE_ON" by (simp add: ex_defs const_defs)
  have h3: "startswith ''light.kitchen'' ''light.''" by (simp add: startswith_def)
  have h4: "''light.kitchen'' \<in>
      set (call_entity_ids (ServiceCall DOMAIN SERVICE_SAVE_STATE [''light.kitchen'']))"
    by simp
  have snap: "get_light_state ex_kitchen = [(''state'', VStr ''on''), (''brightness'', VInt 200)]"
    by (simp add: get_light_state_def light_attrs_def const_defs ex_defs dict_setitem_def)
  have pay: "restore_service_data ''light.kitchen''
        (configured_transition (LightStateManager ex_entry))
        [(''state'', VStr ''on''), (''brightness'', VInt 200)] =
      [(''entity_id'', VStr ''light.kitchen''), (''transition'', VFloat 2),
       (''brightness'', VInt 200)]"
    by (simp add: restore_service_data_def dict_update_def dict_setitem_def
          configured_transition_def LightStateManager_def ex_entry_def)
  have ack: "\<And>tr d s sd. async_call ex_hass tr d s sd = None" by (simp add: ex_defs)
  note t = save_then_restore_reproduces_captured_attributes[OF h1 h2 h3 h4,
      of ex_hass "LightStateManager ex_entry" DOMAIN SERVICE_RESTORE_STATE]
  have "dict_getitem
      (restore_service_data ''light.kitchen''
         (configured_transition (LightStateManager ex_entry)) (get_light_state ex_kitchen))
      ''effect'' = None"
    using t by (simp add: light_attrs_def const_defs ex_kitchen_def)
  moreover have "handle_restore_state ex_hass
      (fst (handle_save_state ex_hass (LightStateManager ex_entry)
              (ServiceCall DOMAIN SERVICE_SAVE_STATE [''light.kitchen''])))
      (ServiceCall DOMAIN SERVICE_RESTORE_STATE [''light.kitchen'']) =
     (fst (handle_save_state ex_hass (LightStateManager ex_entry)
              (ServiceCall DOMAIN SERVICE_SAVE_STATE [''light.kitchen''])),
      [AsyncCall ''light'' ''turn_on''
         [(''entity_id'', VStr ''light.kitchen''), (''transition'', VFloat 2),
          (''brightness'', VInt 200)],
       Fire ''light_state_restored''
         [(''entity_id'', VStr ''light.kitchen''),
          (''state'', VDict [(''state'', VStr ''on''), (''brightness'', VInt 200)])]],
      None)"
    using t unfolding turn_on_command_def pay snap ack restored_event_def
    by (simp add: const_defs)
  ultimately show ?thesis using h1 h2 h3 by simp
qed

text \<open>
  C6. A save goes through the identifiers in input order. Those outside the light domain
  and those the host has no state for leave no trace: the store becomes the old store
  with, in input order, the snapshot of every other identifier written, the
  notifications are those of the same identifiers in the same order, and no exception
  is raised. Dropping a skipped identifier from the list changes nothing.
\<close>

theorem save_skips_silently_in_input_order:
  "handle_save_state h m (ServiceCall d s ids) =
     (m\<lparr>states := fold (\<lambda>eid st. dict_setitem st eid (saved_snapshot h eid))
                       (filter (saveable h) ids) (states m)\<rparr>,
      map (saved_event h) (filter (saveable h) ids), None) \<and>
   (\<forall>xs eid ys. ids = xs @ eid # ys \<and> \<not> saveable h eid \<longrightarrow>
      handle_save_state h m (ServiceCall d s ids) =
        handle_save_state h m (ServiceCall d s (xs @ ys)) \<and>
      dict_getitem (states (fst (handle_save_state h m (ServiceCall d s ids)))) eid =
        dict_getitem (states m) eid)"
proof (intro conjI allI impI)
  show "handle_save_state h m (ServiceCall d s ids) =
     (m\<lparr>states := fold (\<lambda>eid st. dict_setitem st eid (saved_snapshot h eid))
                       (filter (saveable h) ids) (states m)\<rparr>,
      map (saved_event h) (filter (saveable h) ids), None)"
    by (simp add: handle_save_state_eq)
next
  fix xs eid ys
  assume a: "ids = xs @ eid # ys \<and> \<not> saveable h eid"
  then have f: "filter (saveable h) ids = filter (saveable h) (xs @ ys)" by simp
  show "handle_save_state h m (ServiceCall d s ids) =
        handle_save_state h m (ServiceCall d s (xs @ ys))"
    by (simp only: handle_save_state_eq call_entity_ids.simps f)
  show "dict_getitem (states (fst (handle_save_state h m (ServiceCall d s ids)))) eid =
        dict_getitem (states m) eid"
    using a by (simp add: handle_save_state_eq fold_setitem_getitem)
qed

theorem save_skips_silently_witness:
  "\<not> saveable ex_hass ''switch.x'' \<and> \<not> saveable ex_hass ''light.none'' \<and>
   handle_save_state ex_hass (LightStateManager ex_entry)
     (ServiceCall DOMAIN SERVICE_SAVE_STATE [''switch.x'', ''light.none'', ''light.kitchen'']) =
     ((LightStateManager ex_entry)
        \<lparr>states := [(''light.kitchen'', [(''state'', VStr ''on''), (''brightness'', VInt 200)])]\<rparr>,
      [Fire ''light_state_saved''
         [(''entity_id'', VStr ''light.kitchen''),
          (''state'', VDict [(''state'', VStr ''on''), (''brightness'', VInt 200)])]],
      None) \<and>
   handle_save_state ex_hass (LightStateManager ex_entry)
     (ServiceCall DOMAIN SERVICE_SAVE_STATE [''switch.x'', ''light.none'', ''light.kitchen'']) =
   handle_save_state ex_hass (LightStateManager ex_entry)
     (ServiceCall DOMAIN SERVICE_SAVE_STATE [''switch.x'', ''light.kitchen''])"
proof -
  let ?ids = "[''switch.x'', ''light.none'', ''light.kitchen'']"
  have n1: "\<not> saveable ex_hass ''switch.x''" by (simp add: saveable_def startswith_def)
  have n2: "\<not> saveable ex_hass ''light.none''" by (simp add: saveable_def ex_hass_def)
  have y: "saveable ex_hass ''light.kitchen''"
    by (simp add: saveable_def startswith_def ex_hass_def)
  have snap: "saved_snapshot ex_hass ''light.kitchen'' =
      [(''state'', VStr ''on''), (''brightness'', VInt 200)]"
    by (simp add: saved_snapshot_def get_light_state_def light_attrs_def const_defs ex_defs
          dict_setitem_def)
  note t = save_skips_silently_in_input_order[of ex_hass "LightStateManager ex_entry"
      DOMAIN SERVICE_SAVE_STATE ?ids]
  from t have a: "handle_save_state ex_hass (LightStateManager ex_entry)
       (ServiceCall DOMAIN SERVICE_SAVE_STATE ?ids) =
     ((LightStateManager ex_entry)
        \<lparr>states := [(''light.kitchen'', [(''state'', VStr ''on''), (''brightness'', VInt 200)])]\<rparr>,
      [Fire ''light_state_saved''
         [(''entity_id'', VStr ''light.kitchen''),
          (''state'', VDict [(''state'', VStr ''on''), (''brightness'', VInt 200)])]],
      None)"
    by (simp add: n1 n2 y snap saved_event_def dict_setitem_def LightStateManager_def
          const_defs)
  from t have "?ids = [''switch.x''] @ ''light.none'' # [''light.kitchen''] \<and>
        \<not> saveable ex_hass ''light.none'' \<longrightarrow>
      handle_save_state ex_hass (LightStateManager ex_entry)
         (ServiceCall DOMAIN SERVICE_SAVE_STATE ?ids) =
      handle_save_state ex_hass (LightStateManager ex_entry)
         (ServiceCall DOMAIN SERVICE_SAVE_STATE ([''switch.x''] @ [''light.kitchen'']))"
    by blast
  then have b: "handle_save_state ex_hass (LightStateManager ex_entry)
         (ServiceCall DOMAIN SERVICE_SAVE_STATE ?ids) =
      handle_save_state ex_hass (LightStateManager ex_entry)
         (ServiceCall DOMAIN SERVICE_SAVE_STATE [''switch.x'', ''light.kitchen''])"
    using n2 by simp
  show ?thesis using n1 n2 a b by simp
qed

subsection \<open>Clear\<close>

lemma handle_clear_states_eq:
  "handle_clear_states h m c =
    (m\<lparr>states := filter (\<lambda>kv. fst kv \<notin> set (call_entity_ids c)) (states m)\<rparr>, [], None)"
  by (simp add: handle_clear_states_def fold_pop_filter)

text \<open>
  C8. Clearing drops from the store the snapshots of exactly the listed identifiers,
  whether or not they had one, keeps every other snapshot, does not touch the motion
  map or any other field of the manager, emits no notification, issues no command and
  raises nothing.
\<close>

theorem clear_removes_exactly_the_listed_snapshots:
  "handle_clear_states h m (ServiceCall d s ids) =
     (m\<lparr>states := filter (\<lambda>kv. fst kv \<notin> set ids) (states m)\<rparr>, [], None) \<and>
   (\<forall>k. dict_getitem (states (fst (handle_clear_states h m (ServiceCall d s ids)))) k =
      (if k \<in> set ids then None else dict_getitem (states m) k)) \<and>
   motion_active (fst (handle_clear_states h m (ServiceCall d s ids))) = motion_active m"
  using getitem_filter[of "\<lambda>k. k \<notin> set ids" "states m"]
  by (simp add: handle_clear_states_eq)

theorem clear_removes_exactly_witness:
  "handle_clear_states ex_hass ex_manager
     (ServiceCall DOMAIN SERVICE_CLEAR_STATES [''light.kitchen'', ''light.none'']) =
     (ex_manager\<lparr>states := [(''light.hall'', [(''state'', VStr ''off'')])]\<rparr>, [], None) \<and>
   dict_getitem (states (fst (handle_clear_states ex_hass ex_manager
     (ServiceCall DOMAIN SERVICE_CLEAR_STATES [''light.kitchen'', ''light.none''])))) ''light.kitchen''
     = None"
proof -
  note t = clear_removes_exactly_the_listed_snapshots[of ex_hass ex_manager DOMAIN
      SERVICE_CLEAR_STATES "[''light.kitchen'', ''light.none'']"]
  have st: "states ex_manager =
      [(''light.kitchen'', [(''state'', VStr ''on''), (''brightness'', VInt 200)]),
       (''light.hall'', [(''state'', VStr ''off'')])]"
    by (simp add: ex_manager_def)
  have a: "handle_clear_states ex_hass ex_manager
     (ServiceCall DOMAIN SERVICE_CLEAR_STATES [''light.kitchen'', ''light.none'']) =
     (ex_manager\<lparr>states := [(''light.hall'', [(''state'', VStr ''off'')])]\<rparr>, [], None)"
    using t[THEN conjunct1] by (simp add: st)
  have b: "dict_getitem (states (fst (handle_clear_states ex_hass ex_manager
     (ServiceCall DOMAIN SERVICE_CLEAR_STATES [''light.kitchen'', ''light.none''])))) ''light.kitchen''
     = None"
    using t[THEN conjunct2, THEN conjunct1, THEN spec, of "''light.kitchen''"] by simp
  show ?thesis using a b by (rule conjI)
qed

subsection \<open>What each handler leaves alone\<close>

lemma handle_restore_state_manager: "fst (handle_restore_state h m c) = m"
  by (simp add: handle_restore_state_loop restore_loop_manager)

lemma handle_motion_change_manager: "fst (handle_motion_change m) = m"
  by (simp add: handle_motion_change_def)

lemma handle_motion_store: "states (fst (handle_motion sensors m ev)) = states m"
  by (simp add: handle_motion_def handle_motion_change_manager split: option.splits)

lemma handle_interval_save_store:
  "states (fst (handle_interval_save h m now)) =
    (if setup_complete m
     then states (fst (handle_save_state h m
                         (ServiceCall DOMAIN SERVICE_SAVE_STATE (config_lights m))))
     else states m)"
  by (simp add: handle_interval_save_def)

lemma async_setup_store: "states (fst (async_setup m)) = states m"
  by (simp add: async_setup_def dt_util_timedelta_def Let_def)

lemma save_store_keys:
  "fst ` set (states (fst (handle_save_state h m c))) =
     fst ` set (states m) \<union> {k \<in> set (call_entity_ids c). saveable h k}"
  by (auto simp: handle_save_state_eq fold_setitem_keys)

lemma store_keys_light_iff:
  "store_keys_light m \<longleftrightarrow> (\<forall>k \<in> fst ` set (states m). startswith k ''light.'')"
  by (auto simp: store_keys_light_def list_all_iff)

lemma store_keys_light_save:
  "store_keys_light m \<Longrightarrow> store_keys_light (fst (handle_save_state h m c))"
  unfolding store_keys_light_iff save_store_keys by (auto simp: saveable_def)

text \<open>
  C10. Every key of the snapshot store starts with \<^verbatim>\<open>light.\<close>: the store of a new
  manager is empty, and every operation keeps the property. A save adds exactly the
  listed identifiers that start with \<^verbatim>\<open>light.\<close> and have a host state, a restore
  leaves the store as it is, a clear only removes entries.
\<close>

theorem store_keys_start_with_light:
  "store_keys_light (LightStateManager e) \<and>
   (store_keys_light m \<longrightarrow>
      store_keys_light (fst (async_setup m)) \<and>
      store_keys_light (fst (handle_save_state h m c)) \<and>
      store_keys_light (fst (handle_restore_state h m c)) \<and>
      store_keys_light (fst (handle_clear_states h m c)) \<and>
      store_keys_light (fst (handle_interval_save h m now)) \<and>
      store_keys_light (fst (handle_motion sensors m ev))) \<and>
   fst ` set (states (fst (handle_save_state h m c))) =
     fst ` set (states m) \<union>
     {k \<in> set (call_entity_ids c). startswith k ''light.'' \<and> hass_states h k \<noteq> None} \<and>
   states (fst (handle_restore_state h m c)) = states m \<and>
   set (states (fst (handle_clear_states h m c))) \<subseteq> set (states m)"
proof -
  have init: "store_keys_light (LightStateManager e)"
    by (simp add: store_keys_light_def LightStateManager_def)
  have clear: "set (states (fst (handle_clear_states h m c))) \<subseteq> set (states m)"
    by (auto simp: handle_clear_states_eq)
  have keys: "fst ` set (states (fst (handle_save_state h m c))) =
     fst ` set (states m) \<union>
     {k \<in> set (call_entity_ids c). startswith k ''light.'' \<and> hass_states h k \<noteq> None}"
    using save_store_keys[of h m c] by (simp add: saveable_def)
  have restore: "states (fst (handle_restore_state h m c)) = states m"
    by (simp add: handle_restore_state_manager)
  have pres: "store_keys_light (fst (async_setup m)) \<and>
      store_keys_light (fst (handle_save_state h m c)) \<and>
      store_keys_light (fst (handle_restore_state h m c)) \<and>
      store_keys_light (fst (handle_clear_states h m c)) \<and>
      store_keys_light (fst (handle_interval_save h m now)) \<and>
      store_keys_light (fst (handle_motion sensors m ev))" if inv: "store_keys_light m"
  proof (intro conjI)
    show "store_keys_light (fst (async_setup m))"
      using inv by (simp add: store_keys_light_def async_setup_store)
    show "store_keys_light (fst (handle_save_state h m c))"
      using inv by (rule store_keys_light_save)
    show "store_keys_light (fst (handle_restore_state h m c))"
      using inv by (simp add: handle_restore_state_manager)
    show "store_keys_light (fst (handle_clear_states h m c))"
      using inv clear unfolding store_keys_light_iff by blast
    show "store_keys_light (fst (handle_interval_save h m now))"
      using inv store_keys_light_save[OF inv, of h]
      by (simp add: handle_interval_save_def)
    show "store_keys_light (fst (handle_motion sensors m ev))"
      using inv by (simp add: store_keys_light_def handle_motion_store)
  qed
  show ?thesis using init pres keys restore clear by blast
qed

theorem store_keys_start_with_light_witness:
  "store_keys_light ex_manager \<and>
   store_keys_light (fst (handle_save_state ex_hass ex_manager
      (ServiceCall DOMAIN SERVICE_SAVE_STATE [''switch.x'', ''light.kitchen'']))) \<and>
   fst ` set (states (fst (handle_save_state ex_hass ex_manager
      (ServiceCall DOMAIN SERVICE_SAVE_STATE [''switch.x'', ''light.kitchen''])))) =
     {''light.kitchen'', ''light.hall''}"
proof -
  have inv: "store_keys_light ex_manager"
    by (simp add: store_keys_light_def ex_manager_def startswith_def)
  note t = store_keys_start_with_light[of ex_entry ex_manager ex_hass
      "ServiceCall DOMAIN SERVICE_SAVE_STATE [''switch.x'', ''light.kitchen'']"]
  have a: "store_keys_light (fst (handle_save_state ex_hass ex_manager
      (ServiceCall DOMAIN SERVICE_SAVE_STATE [''switch.x'', ''light.kitchen''])))"
    using t inv by blast
  have "fst ` set (states (fst (handle_save_state ex_hass ex_manager
      (ServiceCall DOMAIN SERVICE_SAVE_STATE [''switch.x'', ''light.kitchen''])))) =
     fst ` set (states ex_manager) \<union>
     {k \<in> set (call_entity_ids
         (ServiceCall DOMAIN SERVICE_SAVE_STATE [''switch.x'', ''light.kitchen''])).
        startswith k ''light.'' \<and> hass_states ex_hass k \<noteq> None}"
    using t by blast
  also have "\<dots> = {''light.kitchen'', ''light.hall''}"
    by (auto simp: ex_manager_def ex_hass_def startswith_def)
  finally show ?thesis using inv a by simp
qed

subsection \<open>The entry's options are never read\<close>

lemma config_lights_data:
  "data e1 = data e2 \<Longrightarrow> config_lights (m\<lparr>entry := e2\<rparr>) = config_lights (m\<lparr>entry := e1\<rparr>)"
  by (simp add: config_lights_def)

lemma handle_save_state_entry:
  "handle_save_state h (m\<lparr>entry := e2\<rparr>) c =
     with_entry e2 (handle_save_state h (m\<lparr>entry := e1\<rparr>) c)"
  by (simp add: handle_save_state_eq with_entry_def)

lemma handle_restore_state_entry:
  assumes "data e1 = data e2"
  shows "handle_restore_state h (m\<lparr>entry := e2\<rparr>) c =
     with_entry e2 (handle_restore_state h (m\<lparr>entry := e1\<rparr>) c)"
proof -
  have t: "configured_transition (m\<lparr>entry := e2\<rparr>) = configured_transition (m\<lparr>entry := e1\<rparr>)"
    using assms by (simp add: configured_transition_def)
  have s: "states (m\<lparr>entry := e2\<rparr>) = states (m\<lparr>entry := e1\<rparr>)" by simp
  show ?thesis
    unfolding handle_restore_state_loop t
    using restore_loop_same_store[OF s, of h "configured_transition (m\<lparr>entry := e1\<rparr>)" "[]"
        "call_entity_ids c"]
      restore_loop_manager[of h "m\<lparr>entry := e1\<rparr>" "configured_transition (m\<lparr>entry := e1\<rparr>)"
        "[]" "call_entity_ids c"]
    by (cases "restore_loop h (m\<lparr>entry := e1\<rparr>) (configured_transition (m\<lparr>entry := e1\<rparr>)) []
                 (call_entity_ids c)") (auto simp: with_entry_def)
qed

lemma handle_clear_states_entry:
  "handle_clear_states h (m\<lparr>entry := e2\<rparr>) c =
     with_entry e2 (handle_clear_states h (m\<lparr>entry := e1\<rparr>) c)"
  by (simp add: handle_clear_states_eq with_entry_def)

lemma handle_interval_save_entry:
  assumes "data e1 = data e2"
  shows "handle_interval_save h (m\<lparr>entry := e2\<rparr>) now =
     with_entry e2 (handle_interval_save h (m\<lparr>entry := e1\<rparr>) now)"
  using config_lights_data[OF assms, where m = m]
    handle_save_state_entry[where h = h and m = m and ?e1.0 = e1 and ?e2.0 = e2 and
      c = "ServiceCall DOMAIN SERVICE_SAVE_STATE (config_lights (m\<lparr>entry := e1\<rparr>))"]
  by (simp add: handle_interval_save_def with_entry_def)

lemma handle_motion_change_entry:
  assumes "data e1 = data e2"
  shows "handle_motion_change (m\<lparr>entry := e2\<rparr>) =
     with_entry e2 (handle_motion_change (m\<lparr>entry := e1\<rparr>))"
  using config_lights_data[OF assms, where m = m]
  by (simp add: handle_motion_change_def with_entry_def)

lemma handle_motion_entry:
  assumes "data e1 = data e2"
  shows "handle_motion sensors (m\<lparr>entry := e2\<rparr>) ev =
     with_entry e2 (handle_motion sensors (m\<lparr>entry := e1\<rparr>) ev)"
  using assms
  by (simp add: handle_motion_def handle_motion_change_def with_entry_def config_lights_def
        split: option.splits)

lemma async_setup_entry:
  assumes "data e1 = data e2"
  shows "async_setup (m\<lparr>entry := e2\<rparr>) = with_entry e2 (async_setup (m\<lparr>entry := e1\<rparr>))"
  using assms by (simp add: async_setup_def dt_util_timedelta_def with_entry_def Let_def)

text \<open>
  C9. The manager never reads the options of its config entry. Two managers that differ
  only in entries with the same data behave alike: setup, save, restore, clear, the
  timer tick and the motion handler give the same effects and the same exception, and
  managers that again differ only in the entry. The options flow writes the options
  and leaves the data alone.
\<close>

theorem manager_ignores_entry_options:
  assumes "data e1 = data e2"
  shows "async_setup (m\<lparr>entry := e2\<rparr>) = with_entry e2 (async_setup (m\<lparr>entry := e1\<rparr>)) \<and>
    handle_save_state h (m\<lparr>entry := e2\<rparr>) c =
      with_entry e2 (handle_save_state h (m\<lparr>entry := e1\<rparr>) c) \<and>
    handle_restore_state h (m\<lparr>entry := e2\<rparr>) c =
      with_entry e2 (handle_restore_state h (m\<lparr>entry := e1\<rparr>) c) \<and>
    handle_clear_states h (m\<lparr>entry := e2\<rparr>) c =
      with_entry e2 (handle_clear_states h (m\<lparr>entry := e1\<rparr>) c) \<and>
    handle_interval_save h (m\<lparr>entry := e2\<rparr>) now =
      with_entry e2 (handle_interval_save h (m\<lparr>entry := e1\<rparr>) now) \<and>
    handle_motion sensors (m\<lparr>entry := e2\<rparr>) ev =
      with_entry e2 (handle_motion sensors (m\<lparr>entry := e1\<rparr>) ev) \<and>
    data (async_step_init e1 user_input) = data e1"
proof (intro conjI)
  show "async_setup (m\<lparr>entry := e2\<rparr>) = with_entry e2 (async_setup (m\<lparr>entry := e1\<rparr>))"
    using assms by (rule async_setup_entry)
  show "handle_save_state h (m\<lparr>entry := e2\<rparr>) c =
      with_entry e2 (handle_save_state h (m\<lparr>entry := e1\<rparr>) c)"
    by (rule handle_save_state_entry)
  show "handle_restore_state h (m\<lparr>entry := e2\<rparr>) c =
      with_entry e2 (handle_restore_state h (m\<lparr>entry := e1\<rparr>) c)"
    using assms by (rule handle_restore_state_entry)
  show "handle_clear_states h (m\<lparr>entry := e2\<rparr>) c =
      with_entry e2 (handle_clear_states h (m\<lparr>entry := e1\<rparr>) c)"
    by (rule handle_clear_states_entry)
  show "handle_interval_save h (m\<lparr>entry := e2\<rparr>) now =
      with_entry e2 (handle_interval_save h (m\<lparr>entry := e1\<rparr>) now)"
    using assms by (rule handle_interval_save_entry)
  show "handle_motion sensors (m\<lparr>entry := e2\<rparr>) ev =
      with_entry e2 (handle_motion sensors (m\<lparr>entry := e1\<rparr>) ev)"
    using assms by (rule handle_motion_entry)
  show "data (async_step_init e1 user_input) = data e1"
    by (simp add: async_step_init_def split: option.splits)
qed

theorem manager_ignores_entry_options_witness:
  "data ex_entry = data (async_step_init ex_entry (Some ex_options)) \<and>
   options (async_step_init ex_entry (Some ex_options)) \<noteq> options ex_entry \<and>
   handle_interval_save ex_hass
      (ex_manager\<lparr>entry := async_step_init ex_entry (Some ex_options)\<rparr>) 0 =
     with_entry (async_step_init ex_entry (Some ex_options))
       (handle_interval_save ex_hass (ex_manager\<lparr>entry := ex_entry\<rparr>) 0) \<and>
   fst (snd (handle_interval_save ex_hass
      (ex_manager\<lparr>entry := async_step_init ex_entry (Some ex_options)\<rparr>) 0)) =
     [saved_event ex_hass ''light.kitchen'']"
proof -
  let ?e2 = "async_step_init ex_entry (Some ex_options)"
  have d: "data ex_entry = data ?e2" by (simp add: async_step_init_def)
  have o: "options ?e2 \<noteq> options ex_entry"
    by (simp add: async_step_init_def ex_entry_def ex_options_def)
  note t = manager_ignores_entry_options[OF d, where m = ex_manager and h = ex_hass
      and now = 0]
  have a: "handle_interval_save ex_hass (ex_manager\<lparr>entry := ?e2\<rparr>) 0 =
     with_entry ?e2 (handle_interval_save ex_hass (ex_manager\<lparr>entry := ex_entry\<rparr>) 0)"
    using t by blast
  have sv: "saveable ex_hass ''light.kitchen''"
    by (simp add: saveable_def startswith_def ex_hass_def)
  have "fst (snd (handle_interval_save ex_hass (ex_manager\<lparr>entry := ex_entry\<rparr>) 0)) =
      [saved_event ex_hass ''light.kitchen'']"
    by (simp add: handle_interval_save_def handle_save_state_eq config_lights_def sv
          ex_manager_def ex_entry_def)
  then have b: "fst (snd (handle_interval_save ex_hass (ex_manager\<lparr>entry := ?e2\<rparr>) 0)) =
      [saved_event ex_hass ''light.kitchen'']"
    unfolding a
    by (cases "handle_interval_save ex_hass (ex_manager\<lparr>entry := ex_entry\<rparr>) 0")
       (simp add: with_entry_def)
  show ?thesis using d o a b by blast
qed

subsection \<open>Before setup has completed\<close>

lemma handle_save_state_setup_flag:
  "handle_save_state h (m\<lparr>setup_complete := b\<rparr>) c =
     with_setup_complete b (handle_save_state h m c)"
  by (simp add: handle_save_state_eq with_setup_complete_def)

lemma handle_clear_states_setup_flag:
  "handle_clear_states h (m\<lparr>setup_complete := b\<rparr>) c =
     with_setup_complete b (handle_clear_states h m c)"
  by (simp add: handle_clear_states_eq with_setup_complete_def)

lemma handle_restore_state_setup_flag:
  "handle_restore_state h (m\<lparr>setup_complete := b\<rparr>) c =
     with_setup_complete b (handle_restore_state h m c)"
proof -
  have t: "configured_transition (m\<lparr>setup_complete := b\<rparr>) = configured_transition m"
    by (simp add: configured_transition_def)
  have s: "states (m\<lparr>setup_complete := b\<rparr>) = states m" by simp
  show ?thesis
    unfolding handle_restore_state_loop t
    using restore_loop_same_store[OF s, of h "configured_transition m" "[]" "call_entity_ids c"]
      restore_loop_manager[of h m "configured_transition m" "[]" "call_entity_ids c"]
    by (cases "restore_loop h m (configured_transition m) [] (call_entity_ids c)")
       (auto simp: with_setup_complete_def)
qed

text \<open>
  C3, as the code has it. Before setup has completed, the timer tick does nothing, and
  a motion notification schedules no restore, issues no command, emits no notification
  and leaves the store alone; for a configured sensor with a new state it still records
  the flag in the motion map. Save, restore and clear do not look at the setup flag:
  they do the same whatever its value.
\<close>

theorem before_ready_timer_and_motion_restore_are_suppressed:
  assumes "\<not> setup_complete m"
  shows "handle_interval_save h m now = (m, [], None) \<and>
    handle_motion_change m = (m, [], None) \<and>
    handle_motion sensors m ev =
      (case new_state ev of
         None \<Rightarrow> m
       | Some ns \<Rightarrow>
           if entity_id ev \<in> set sensors
           then m\<lparr>motion_active :=
                    dict_setitem (motion_active m) (entity_id ev) (state ns = STATE_ON)\<rparr>
           else m,
       [], None) \<and>
    states (fst (handle_motion sensors m ev)) = states m \<and>
    (\<forall>b. handle_save_state h (m\<lparr>setup_complete := b\<rparr>) c =
           with_setup_complete b (handle_save_state h m c)) \<and>
    (\<forall>b. handle_restore_state h (m\<lparr>setup_complete := b\<rparr>) c =
           with_setup_complete b (handle_restore_state h m c)) \<and>
    (\<forall>b. handle_clear_states h (m\<lparr>setup_complete := b\<rparr>) c =
           with_setup_complete b (handle_clear_states h m c))"
  using assms
  by (simp add: handle_interval_save_def handle_motion_change_def handle_motion_def
        handle_save_state_setup_flag handle_restore_state_setup_flag
        handle_clear_states_setup_flag split: option.splits)

theorem before_ready_witness:
  "\<not> setup_complete (LightStateManager ex_entry) \<and>
   handle_interval_save ex_hass (LightStateManager ex_entry) 0 =
     (LightStateManager ex_entry, [], None) \<and>
   handle_motion [''binary_sensor.hall''] (LightStateManager ex_entry)
      \<lparr>entity_id = ''binary_sensor.hall'',
       new_state = Some \<lparr>state = ''on'', attributes = Map.empty\<rparr>\<rparr> =
     ((LightStateManager ex_entry)\<lparr>motion_active := [(''binary_sensor.hall'', True)]\<rparr>,
      [], None)"
proof -
  have n: "\<not> setup_complete (LightStateManager ex_entry)"
    by (simp add: LightStateManager_def)
  note t = before_ready_timer_and_motion_restore_are_suppressed[OF n, where h = ex_hass
      and now = 0 and sensors = "[''binary_sensor.hall'']"
      and ev = "\<lparr>entity_id = ''binary_sensor.hall'',
                  new_state = Some \<lparr>state = ''on'', attributes = Map.empty\<rparr>\<rparr>"]
  have a: "handle_interval_save ex_hass (LightStateManager ex_entry) 0 =
     (LightStateManager ex_entry, [], None)"
    using t by blast
  have ma: "motion_active (LightStateManager ex_entry) = []"
    by (simp add: LightStateManager_def)
  have b: "handle_motion [''binary_sensor.hall''] (LightStateManager ex_entry)
      \<lparr>entity_id = ''binary_sensor.hall'',
       new_state = Some \<lparr>state = ''on'', attributes = Map.empty\<rparr>\<rparr> =
     ((LightStateManager ex_entry)\<lparr>motion_active := [(''binary_sensor.hall'', True)]\<rparr>,
      [], None)"
    using t[THEN conjunct2, THEN conjunct2, THEN conjunct1]
    by (simp add: ma dict_setitem_def STATE_ON_def)
  show ?thesis using n a b by blast
qed

text \<open>
  C3 as stated fails: on a manager whose setup has not completed, a save stores a
  snapshot and emits a notification, and a motion notification changes the motion map.
\<close>

theorem before_ready_save_is_not_a_noop_counterexample:
  "\<not> setup_complete (LightStateManager ex_entry) \<and>
   handle_save_state ex_hass (LightStateManager ex_entry)
      (ServiceCall DOMAIN SERVICE_SAVE_STATE [''light.kitchen'']) =
     ((LightStateManager ex_entry)
        \<lparr>states := [(''light.kitchen'', [(''state'', VStr ''on''), (''brightness'', VInt 200)])]\<rparr>,
      [Fire ''light_state_saved''
         [(''entity_id'', VStr ''light.kitchen''),
          (''state'', VDict [(''state'', VStr ''on''), (''brightness'', VInt 200)])]],
      None) \<and>
   states (fst (handle_save_state ex_hass (LightStateManager ex_entry)
      (ServiceCall DOMAIN SERVICE_SAVE_STATE [''light.kitchen'']))) \<noteq>
     states (LightStateManager ex_entry) \<and>
   motion_active (fst (handle_motion [''binary_sensor.hall''] (LightStateManager ex_entry)
      \<lparr>entity_id = ''binary_sensor.hall'',
       new_state = Some \<lparr>state = ''on'', attributes = Map.empty\<rparr>\<rparr>)) \<noteq>
     motion_active (LightStateManager ex_entry)"
proof -
  have y: "saveable ex_hass ''light.kitchen''"
    by (simp add: saveable_def startswith_def ex_hass_def)
  have snap: "saved_snapshot ex_hass ''light.kitchen'' =
      [(''state'', VStr ''on''), (''brightness'', VInt 200)]"
    by (simp add: saved_snapshot_def get_light_state_def light_attrs_def const_defs ex_defs
          dict_setitem_def)
  have a: "handle_save_state ex_hass (LightStateManager ex_entry)
      (ServiceCall DOMAIN SERVICE_SAVE_STATE [''light.kitchen'']) =
     ((LightStateManager ex_entry)
        \<lparr>states := [(''light.kitchen'', [(''state'', VStr ''on''), (''brightness'', VInt 200)])]\<rparr>,
      [Fire ''light_state_saved''
         [(''entity_id'', VStr ''light.kitchen''),
          (''state'', VDict [(''state'', VStr ''on''), (''brightness'', VInt 200)])]],
      None)"
    by (simp add: handle_save_state_eq y snap saved_event_def dict_setitem_def
          LightStateManager_def const_defs)
  have b: "states (fst (handle_save_state ex_hass (LightStateManager ex_entry)
      (ServiceCall DOMAIN SERVICE_SAVE_STATE [''light.kitchen'']))) \<noteq>
     states (LightStateManager ex_entry)"
    unfolding a by (simp add: LightStateManager_def)
  have c: "motion_active (fst (handle_motion [''binary_sensor.hall'']
      (LightStateManager ex_entry)
      \<lparr>entity_id = ''binary_sensor.hall'',
       new_state = Some \<lparr>state = ''on'', attributes = Map.empty\<rparr>\<rparr>)) \<noteq>
     motion_active (LightStateManager ex_entry)"
    by (simp add: handle_motion_def handle_motion_change_def LightStateManager_def
          dict_setitem_def)
  have n: "\<not> setup_complete (LightStateManager ex_entry)"
    by (simp add: LightStateManager_def)
  show ?thesis using n a b c by blast
qed

subsection \<open>Motion\<close>

lemma async_setup_ready:
  "snd (snd (async_setup m)) = None \<Longrightarrow> setup_complete (fst (async_setup m))"
  by (simp add: async_setup_def dt_util_timedelta_def Let_def split: if_splits)

lemma async_setup_listener:
  "AsyncListen t sensors \<in> set (fst (snd (async_setup m))) \<longleftrightarrow>
     t = EVENT_STATE_CHANGED \<and> sensors \<noteq> [] \<and>
     motion_sensors (data (entry m)) = Some sensors \<and>
     \<not> 0 < configured_save_interval (entry m)"
  by (auto simp: async_setup_def dt_util_timedelta_def configured_save_interval_def Let_def
        split: option.splits)

lemma async_setup_listener_ready:
  "AsyncListen t sensors \<in> set (fst (snd (async_setup m))) \<Longrightarrow>
     setup_complete (fst (async_setup m))"
  by (auto simp: async_setup_def dt_util_timedelta_def Let_def split: option.splits if_splits)

lemma any_values_iff:
  assumes "distinct (map fst d)"
  shows "list_ex (\<lambda>b. b) (dict_values d) \<longleftrightarrow> (\<exists>k. dict_getitem d k = Some True)"
proof -
  have "list_ex (\<lambda>b. b) (dict_values d) \<longleftrightarrow> (\<exists>k. (k, True) \<in> set d)"
    by (force simp: list_ex_iff dict_values_def)
  also have "\<dots> \<longleftrightarrow> (\<exists>k. dict_getitem d k = Some True)"
    using assms by (simp add: dict_getitem_def)
  finally show ?thesis .
qed

text \<open>
  C5. Once setup has completed (the listener is subscribed by \<^verbatim>\<open>async_setup\<close>, which
  sets the flag before it returns): a notification for an identifier that is not among
  the sensors the listener holds, or without a new state, changes nothing and schedules
  nothing. Any other notification sets the motion map entry of that identifier to
  whether the reported state is the on value, leaves the other entries alone, and
  schedules one restore over the configured lights exactly when some entry of the
  motion map is then true.
\<close>

theorem motion_notification_updates_map_and_schedules_restore:
  assumes "setup_complete m" and "distinct (map fst (motion_active m))"
  shows "((entity_id ev \<notin> set sensors \<or> new_state ev = None) \<longrightarrow>
            handle_motion sensors m ev = (m, [], None)) \<and>
    (\<forall>ns. entity_id ev \<in> set sensors \<and> new_state ev = Some ns \<longrightarrow>
       handle_motion sensors m ev =
         (m\<lparr>motion_active :=
              dict_setitem (motion_active m) (entity_id ev) (state ns = STATE_ON)\<rparr>,
          if \<exists>k. dict_getitem
                   (dict_setitem (motion_active m) (entity_id ev) (state ns = STATE_ON)) k =
                 Some True
          then [CreateTask (ServiceCall DOMAIN SERVICE_RESTORE_STATE (config_lights m))]
          else [],
          None) \<and>
       (\<forall>k. dict_getitem
               (dict_setitem (motion_active m) (entity_id ev) (state ns = STATE_ON)) k =
             (if k = entity_id ev then Some (state ns = STATE_ON)
              else dict_getitem (motion_active m) k)))"
proof (intro conjI allI impI)
  assume "entity_id ev \<notin> set sensors \<or> new_state ev = None"
  then show "handle_motion sensors m ev = (m, [], None)"
    by (auto simp: handle_motion_def)
next
  fix ns
  assume a: "entity_id ev \<in> set sensors \<and> new_state ev = Some ns"
  let ?ma = "dict_setitem (motion_active m) (entity_id ev) (state ns = STATE_ON)"
  have d: "distinct (map fst ?ma)" using assms(2) by (rule distinct_setitem)
  show "handle_motion sensors m ev =
         (m\<lparr>motion_active := ?ma\<rparr>,
          if \<exists>k. dict_getitem ?ma k = Some True
          then [CreateTask (ServiceCall DOMAIN SERVICE_RESTORE_STATE (config_lights m))]
          else [],
          None)"
    using a assms(1) any_values_iff[OF d]
    by (simp add: handle_motion_def handle_motion_change_def config_lights_def)
next
  fix ns k
  show "dict_getitem
          (dict_setitem (motion_active m) (entity_id ev) (state ns = STATE_ON)) k =
        (if k = entity_id ev then Some (state ns = STATE_ON)
         else dict_getitem (motion_active m) k)"
    by (rule getitem_setitem)
qed

theorem motion_notification_witness:
  "setup_complete ex_manager \<and> distinct (map fst (motion_active ex_manager)) \<and>
   handle_motion [''binary_sensor.hall''] ex_manager
      \<lparr>entity_id = ''binary_sensor.hall'',
       new_state = Some \<lparr>state = ''on'', attributes = Map.empty\<rparr>\<rparr> =
     (ex_manager\<lparr>motion_active := [(''binary_sensor.hall'', True)]\<rparr>,
      [CreateTask (ServiceCall DOMAIN SERVICE_RESTORE_STATE [''light.kitchen''])], None) \<and>
   handle_motion [''binary_sensor.hall''] ex_manager
      \<lparr>entity_id = ''binary_sensor.door'',
       new_state = Some \<lparr>state = ''on'', attributes = Map.empty\<rparr>\<rparr> =
     (ex_manager, [], None)"
proof -
  let ?ev = "\<lparr>entity_id = ''binary_sensor.hall'',
              new_state = Some \<lparr>state = ''on'', attributes = Map.empty\<rparr>\<rparr>"
  let ?ev2 = "\<lparr>entity_id = ''binary_sensor.door'',
              new_state = Some \<lparr>state = ''on'', attributes = Map.empty\<rparr>\<rparr>"
  have r: "setup_complete ex_manager" by (simp add: ex_manager_def)
  have d: "distinct (map fst (motion_active ex_manager))" by (simp add: ex_manager_def)
  have ma: "motion_active ex_manager = []" by (simp add: ex_manager_def)
  have cl: "config_lights ex_manager = [''light.kitchen'']"
    by (simp add: config_lights_def ex_manager_def ex_entry_def)
  note t = motion_notification_updates_map_and_schedules_restore[OF r d,
      where sensors = "[''binary_sensor.hall'']" and ev = ?ev]
  note t2 = motion_notification_updates_map_and_schedules_restore[OF r d,
      where sensors = "[''binary_sensor.hall'']" and ev = ?ev2]
  have ex: "\<exists>k. dict_getitem [(''binary_sensor.hall'', True)] k = Some True"
    by (rule exI[of _ "''binary_sensor.hall''"]) (simp add: dict_getitem_def)
  have a: "handle_motion [''binary_sensor.hall''] ex_manager ?ev =
     (ex_manager\<lparr>motion_active := [(''binary_sensor.hall'', True)]\<rparr>,
      [CreateTask (ServiceCall DOMAIN SERVICE_RESTORE_STATE [''light.kitchen''])], None)"
    using t[THEN conjunct2, THEN spec, of "\<lparr>state = ''on'', attributes = Map.empty\<rparr>"] ex
    by (simp add: ma cl dict_setitem_def STATE_ON_def)
  have b: "handle_motion [''binary_sensor.hall''] ex_manager ?ev2 = (ex_manager, [], None)"
    using t2[THEN conjunct1] by simp
  show ?thesis using r d a b by blast
qed

subsection \<open>Periodic save\<close>

lemma async_setup_positive_interval:
  assumes "0 < configured_save_interval (entry m)"
  shows "async_setup m =
    (m,
     [AsyncRegister DOMAIN SERVICE_SAVE_STATE, AsyncRegister DOMAIN SERVICE_RESTORE_STATE,
      AsyncRegister DOMAIN SERVICE_CLEAR_STATES],
     Some (AttributeError ''module homeassistant.util.dt has no attribute timedelta''))"
  using assms
  by (simp add: async_setup_def dt_util_timedelta_def configured_save_interval_def Let_def)

lemma async_setup_no_interval:
  assumes "\<not> 0 < configured_save_interval (entry m)"
  shows "async_setup m =
    (m\<lparr>setup_complete := True\<rparr>,
     [AsyncRegister DOMAIN SERVICE_SAVE_STATE, AsyncRegister DOMAIN SERVICE_RESTORE_STATE,
      AsyncRegister DOMAIN SERVICE_CLEAR_STATES] @
     (case motion_sensors (data (entry m)) of
        None \<Rightarrow> []
      | Some ms \<Rightarrow> if ms \<noteq> [] then [AsyncListen EVENT_STATE_CHANGED ms] else []),
     None)"
  using assms
  by (simp add: async_setup_def configured_save_interval_def Let_def split: option.splits)

lemma ex_manager_after_setup:
  "async_setup (LightStateManager ex_entry) =
    (ex_manager\<lparr>states := []\<rparr>,
     [AsyncRegister DOMAIN SERVICE_SAVE_STATE, AsyncRegister DOMAIN SERVICE_RESTORE_STATE,
      AsyncRegister DOMAIN SERVICE_CLEAR_STATES,
      AsyncListen EVENT_STATE_CHANGED [''binary_sensor.hall'']],
     None)"
proof -
  have e: "entry (LightStateManager ex_entry) = ex_entry" by (simp add: LightStateManager_def)
  have n: "\<not> 0 < configured_save_interval (entry (LightStateManager ex_entry))"
    unfolding e by (simp add: configured_save_interval_def ex_entry_def)
  show ?thesis
    unfolding async_setup_no_interval[OF n]
    by (simp add: LightStateManager_def ex_manager_def ex_entry_def)
qed

lemma time_elapses_no_timer:
  "cancel_save_interval m = None \<Longrightarrow> time_elapses m ticks = (m, [])"
  by (induction ticks) (simp_all add: time_interval_fired_def)

lemma config_lights_save: "config_lights (fst (handle_save_state h m c)) = config_lights m"
  by (simp add: handle_save_state_eq config_lights_def)

text \<open>
  C7, as the code behaves. With a configured save interval of 0 (or below), setup
  registers no timer and keeps no cancel handle, so however many intervals elapse the
  host never calls the periodic save. With an interval above 0, setup raises while it
  builds the timer's interval, after the three services are registered: no timer is
  registered, no cancel handle is kept, setup does not complete, and no periodic save
  follows however many intervals elapse. The callback itself, on a manager whose setup
  has completed, is a save over the lights of the entry's data, a list that no save,
  restore or clear changes.
\<close>

theorem periodic_save_never_starts_for_positive_interval:
  "(configured_save_interval e \<le> 0 \<longrightarrow>
      (\<forall>i. TrackTimeInterval i \<notin> set (fst (snd (async_setup (LightStateManager e))))) \<and>
      cancel_save_interval (fst (async_setup (LightStateManager e))) = None \<and>
      setup_complete (fst (async_setup (LightStateManager e))) \<and>
      time_elapses (fst (async_setup (LightStateManager e))) ticks =
        (fst (async_setup (LightStateManager e)), [])) \<and>
   (0 < configured_save_interval e \<longrightarrow>
      async_setup (LightStateManager e) =
        (LightStateManager e,
         [AsyncRegister DOMAIN SERVICE_SAVE_STATE, AsyncRegister DOMAIN SERVICE_RESTORE_STATE,
          AsyncRegister DOMAIN SERVICE_CLEAR_STATES],
         Some (AttributeError ''module homeassistant.util.dt has no attribute timedelta'')) \<and>
      cancel_save_interval (fst (async_setup (LightStateManager e))) = None \<and>
      \<not> setup_complete (fst (async_setup (LightStateManager e))) \<and>
      time_elapses (fst (async_setup (LightStateManager e))) ticks =
        (LightStateManager e, [])) \<and>
   (setup_complete m \<longrightarrow>
      handle_interval_save h m now =
        handle_save_state h m (ServiceCall DOMAIN SERVICE_SAVE_STATE (config_lights m))) \<and>
   config_lights m = (case lights (data (entry m)) of None \<Rightarrow> [] | Some ls \<Rightarrow> ls) \<and>
   config_lights (fst (handle_save_state h m c)) = config_lights m \<and>
   config_lights (fst (handle_restore_state h m c)) = config_lights m \<and>
   config_lights (fst (handle_clear_states h m c)) = config_lights m"
proof -
  let ?m0 = "LightStateManager e"
  have e0: "entry ?m0 = e" and c0: "cancel_save_interval ?m0 = None"
    and r0: "\<not> setup_complete ?m0"
    by (simp_all add: LightStateManager_def)
  have off: "(\<forall>i. TrackTimeInterval i \<notin> set (fst (snd (async_setup ?m0)))) \<and>
      cancel_save_interval (fst (async_setup ?m0)) = None \<and>
      setup_complete (fst (async_setup ?m0)) \<and>
      time_elapses (fst (async_setup ?m0)) ticks = (fst (async_setup ?m0), [])"
    if le: "configured_save_interval e \<le> 0"
  proof -
    have n: "\<not> 0 < configured_save_interval (entry ?m0)" using le by (simp add: e0)
    have c: "cancel_save_interval (fst (async_setup ?m0)) = None"
      by (simp add: async_setup_no_interval[OF n] c0)
    have t: "\<forall>i. TrackTimeInterval i \<notin> set (fst (snd (async_setup ?m0)))"
      by (simp add: async_setup_no_interval[OF n] split: option.splits)
    have r: "setup_complete (fst (async_setup ?m0))"
      by (simp add: async_setup_no_interval[OF n])
    show ?thesis using c t r time_elapses_no_timer[OF c] by blast
  qed
  have on: "async_setup ?m0 =
        (?m0,
         [AsyncRegister DOMAIN SERVICE_SAVE_STATE, AsyncRegister DOMAIN SERVICE_RESTORE_STATE,
          AsyncRegister DOMAIN SERVICE_CLEAR_STATES],
         Some (AttributeError ''module homeassistant.util.dt has no attribute timedelta'')) \<and>
      cancel_save_interval (fst (async_setup ?m0)) = None \<and>
      \<not> setup_complete (fst (async_setup ?m0)) \<and>
      time_elapses (fst (async_setup ?m0)) ticks = (?m0, [])"
    if gt: "0 < configured_save_interval e"
  proof -
    have p: "0 < configured_save_interval (entry ?m0)" using gt by (simp add: e0)
    note a = async_setup_positive_interval[OF p]
    have f: "fst (async_setup ?m0) = ?m0" by (simp add: a)
    show ?thesis
      using a c0 r0 time_elapses_no_timer[OF c0, of ticks] by (simp add: f)
  qed
  have tick: "handle_interval_save h m now =
        handle_save_state h m (ServiceCall DOMAIN SERVICE_SAVE_STATE (config_lights m))"
    if "setup_complete m"
    using that by (simp add: handle_interval_save_def)
  have cl: "config_lights m = (case lights (data (entry m)) of None \<Rightarrow> [] | Some ls \<Rightarrow> ls)"
    by (simp add: config_lights_def)
  have r: "config_lights (fst (handle_restore_state h m c)) = config_lights m"
    by (simp add: handle_restore_state_manager)
  have cr: "config_lights (fst (handle_clear_states h m c)) = config_lights m"
    by (simp add: handle_clear_states_eq config_lights_def)
  show ?thesis
    using off on tick cl config_lights_save[of h m c] r cr by blast
qed

theorem periodic_save_never_starts_witness:
  "0 < configured_save_interval ex_entry_timer \<and>
   async_setup (LightStateManager ex_entry_timer) =
     (LightStateManager ex_entry_timer,
      [AsyncRegister ''light_state_management'' ''save_state'',
       AsyncRegister ''light_state_management'' ''restore_state'',
       AsyncRegister ''light_state_management'' ''clear_states''],
      Some (AttributeError ''module homeassistant.util.dt has no attribute timedelta'')) \<and>
   \<not> setup_complete (fst (async_setup (LightStateManager ex_entry_timer))) \<and>
   time_elapses (fst (async_setup (LightStateManager ex_entry_timer)))
      [(ex_hass, 60), (ex_hass, 120), (ex_hass, 180)] =
     (LightStateManager ex_entry_timer, []) \<and>
   configured_save_interval ex_entry \<le> 0 \<and>
   time_elapses (fst (async_setup (LightStateManager ex_entry)))
      [(ex_hass, 60), (ex_hass, 120), (ex_hass, 180)] =
     (fst (async_setup (LightStateManager ex_entry)), []) \<and>
   setup_complete ex_manager \<and>
   handle_interval_save ex_hass ex_manager 60 =
     handle_save_state ex_hass ex_manager
       (ServiceCall DOMAIN SERVICE_SAVE_STATE [''light.kitchen''])"
proof -
  let ?ticks = "[(ex_hass, 60), (ex_hass, 120), (ex_hass, 180)]"
  have i1: "0 < configured_save_interval ex_entry_timer"
    by (simp add: configured_save_interval_def ex_entry_timer_def)
  have i0: "configured_save_interval ex_entry \<le> 0"
    by (simp add: configured_save_interval_def ex_entry_def)
  have r: "setup_complete ex_manager" by (simp add: ex_manager_def)
  have cl: "config_lights ex_manager = [''light.kitchen'']"
    by (simp add: config_lights_def ex_manager_def ex_entry_def)
  note t1 = periodic_save_never_starts_for_positive_interval[where e = ex_entry_timer
      and ticks = ?ticks]
  note t0 = periodic_save_never_starts_for_positive_interval[where e = ex_entry
      and ticks = ?ticks and m = ex_manager and h = ex_hass and now = 60]
  from t1 i1 have a: "async_setup (LightStateManager ex_entry_timer) =
     (LightStateManager ex_entry_timer,
      [AsyncRegister DOMAIN SERVICE_SAVE_STATE, AsyncRegister DOMAIN SERVICE_RESTORE_STATE,
       AsyncRegister DOMAIN SERVICE_CLEAR_STATES],
      Some (AttributeError ''module homeassistant.util.dt has no attribute timedelta''))"
    and b: "\<not> setup_complete (fst (async_setup (LightStateManager ex_entry_timer)))"
    and c: "time_elapses (fst (async_setup (LightStateManager ex_entry_timer))) ?ticks =
     (LightStateManager ex_entry_timer, [])"
    by blast+
  from t0 i0 have d: "time_elapses (fst (async_setup (LightStateManager ex_entry))) ?ticks =
     (fst (async_setup (LightStateManager ex_entry)), [])"
    by blast
  from t0 r have f: "handle_interval_save ex_hass ex_manager 60 =
     handle_save_state ex_hass ex_manager
       (ServiceCall DOMAIN SERVICE_SAVE_STATE (config_lights ex_manager))"
    by blast
  have a': "async_setup (LightStateManager ex_entry_timer) =
     (LightStateManager ex_entry_timer,
      [AsyncRegister ''light_state_management'' ''save_state'',
       AsyncRegister ''light_state_management'' ''restore_state'',
       AsyncRegister ''light_state_management'' ''clear_states''],
      Some (AttributeError ''module homeassistant.util.dt has no attribute timedelta''))"
    using a by (simp add: const_defs)
  show ?thesis using i1 a' b c i0 d r f[unfolded cl] by blast
qed

subsection \<open>What a restore can do\<close>

lemma store_wf_snapshot:
  assumes "store_wf m" and "dict_getitem (states m) eid = Some sd"
  shows "snapshot_wf sd"
proof -
  have "(eid, sd) \<in> set (states m)"
    using assms(2) by (auto simp: dict_getitem_def dest: map_of_SomeD)
  then show ?thesis using assms(1) by (auto simp: store_wf_def list_all_iff)
qed

lemma snapshot_wf_no_entity_id:
  assumes "snapshot_wf sd"
  shows "''entity_id'' \<notin> fst ` set sd"
proof
  assume "''entity_id'' \<in> fst ` set sd"
  then obtain kv where "kv \<in> set sd" and "fst kv = ''entity_id''" by auto
  then have "''entity_id'' = ''state'' \<or> ''entity_id'' \<in> set light_attrs"
    using assms by (auto simp: snapshot_wf_def list_all_iff)
  then show False using reserved_notin_light_attrs(1) by simp
qed

lemma effect_target_turn_on:
  "snapshot_wf sd \<Longrightarrow> effect_target (turn_on_command m eid sd) = Some (VStr eid)"
  by (simp add: effect_target_def turn_on_command_def target_restore_service_data
        snapshot_wf_no_entity_id)

lemma effect_target_restored: "effect_target (restored_event eid sd) = Some (VStr eid)"
  by (simp add: effect_target_def restored_event_def dict_getitem_def)

lemma handle_restore_state_effects:
  assumes "handle_restore_state h m c = (m', tr, ex)"
  shows "\<forall>eff \<in> set tr. \<exists>eid \<in> set (call_entity_ids c). \<exists>sd.
            dict_getitem (states m) eid = Some sd \<and>
            dict_getitem sd ''state'' = Some (VStr STATE_ON) \<and>
            (eff = turn_on_command m eid sd \<or> eff = restored_event eid sd)"
  using restore_loop_effects[OF assms[unfolded handle_restore_state_loop]]
  by (simp add: turn_on_command_def restored_event_def)

lemma store_wf_init: "store_wf (LightStateManager e)"
  by (simp add: store_wf_def LightStateManager_def)

lemma store_wf_save:
  assumes "store_wf m"
  shows "store_wf (fst (handle_save_state h m c))"
proof -
  let ?xs = "filter (saveable h) (call_entity_ids c)"
  let ?d = "fold (\<lambda>eid d. dict_setitem d eid (saved_snapshot h eid)) ?xs (states m)"
  have d: "distinct (map fst ?d)"
    using assms by (simp add: store_wf_def fold_setitem_distinct)
  have "snapshot_wf (snd kv)" if "kv \<in> set ?d" for kv
  proof -
    from that fold_setitem_values[of "saved_snapshot h" ?xs "states m"]
    have "kv \<in> set (states m) \<or> (\<exists>k \<in> set ?xs. kv = (k, saved_snapshot h k))" by auto
    then show ?thesis
    proof
      assume "kv \<in> set (states m)"
      then show ?thesis using assms by (auto simp: store_wf_def list_all_iff)
    next
      assume "\<exists>k \<in> set ?xs. kv = (k, saved_snapshot h k)"
      then obtain k where k: "saveable h k" and kv: "kv = (k, saved_snapshot h k)" by auto
      from k obtain st where "hass_states h k = Some st" by (auto simp: saveable_def)
      then show ?thesis using kv by (simp add: saved_snapshot_def snapshot_wf_get_light_state)
    qed
  qed
  then show ?thesis using d by (simp add: store_wf_def handle_save_state_eq list_all_iff)
qed

lemma store_wf_clear: "store_wf m \<Longrightarrow> store_wf (fst (handle_clear_states h m c))"
  by (auto simp: store_wf_def handle_clear_states_eq list_all_iff distinct_map_filter)

lemma store_wf_restore: "store_wf m \<Longrightarrow> store_wf (fst (handle_restore_state h m c))"
  by (simp add: handle_restore_state_manager)

text \<open>
  C2. Whatever the list and the store, everything a restore does to the host is a
  \<^verbatim>\<open>light.turn_on\<close> command or a restored notification, each for a listed identifier
  whose stored snapshot has the on state; so no turn-off is ever issued. On a store
  of snapshots as a save builds them, no command and no notification carries an
  identifier that has no stored snapshot or whose snapshot is not on.
\<close>

theorem restore_only_turns_on_on_snapshots:
  assumes "handle_restore_state h m c = (m', tr, ex)"
  shows "(\<forall>eff \<in> set tr. \<exists>eid \<in> set (call_entity_ids c). \<exists>sd.
            dict_getitem (states m) eid = Some sd \<and>
            dict_getitem sd ''state'' = Some (VStr STATE_ON) \<and>
            (eff = turn_on_command m eid sd \<or> eff = restored_event eid sd)) \<and>
    (store_wf m \<longrightarrow>
       (\<forall>eid. \<not> snapshot_on m eid \<longrightarrow>
          (\<forall>eff \<in> set tr. effect_target eff \<noteq> Some (VStr eid))))"
proof (intro conjI impI allI ballI)
  fix eff assume "eff \<in> set tr"
  then show "\<exists>eid \<in> set (call_entity_ids c). \<exists>sd.
            dict_getitem (states m) eid = Some sd \<and>
            dict_getitem sd ''state'' = Some (VStr STATE_ON) \<and>
            (eff = turn_on_command m eid sd \<or> eff = restored_event eid sd)"
    using handle_restore_state_effects[OF assms] by blast
next
  fix eid eff
  assume wf: "store_wf m" and off: "\<not> snapshot_on m eid" and e: "eff \<in> set tr"
  from handle_restore_state_effects[OF assms] e obtain eid' sd where
    s: "dict_getitem (states m) eid' = Some sd" and
    o: "dict_getitem sd ''state'' = Some (VStr STATE_ON)" and
    f: "eff = turn_on_command m eid' sd \<or> eff = restored_event eid' sd"
    by blast
  have "snapshot_on m eid'" using s o by (simp add: snapshot_on_def)
  then have ne: "eid' \<noteq> eid" using off by auto
  have "effect_target eff = Some (VStr eid')"
    using f effect_target_turn_on[OF store_wf_snapshot[OF wf s]] effect_target_restored
    by auto
  then show "effect_target eff \<noteq> Some (VStr eid)" using ne by simp
qed

theorem restore_only_turns_on_witness:
  "handle_restore_state ex_hass ex_manager
      (ServiceCall DOMAIN SERVICE_RESTORE_STATE [''light.kitchen'', ''light.hall'', ''light.none'']) =
     (ex_manager,
      [turn_on_command ex_manager ''light.kitchen''
         [(''state'', VStr ''on''), (''brightness'', VInt 200)],
       restored_event ''light.kitchen'' [(''state'', VStr ''on''), (''brightness'', VInt 200)]],
      None) \<and>
   store_wf ex_manager \<and> \<not> snapshot_on ex_manager ''light.hall'' \<and>
   \<not> snapshot_on ex_manager ''light.none'' \<and>
   effect_target (turn_on_command ex_manager ''light.kitchen''
       [(''state'', VStr ''on''), (''brightness'', VInt 200)]) \<noteq> Some (VStr ''light.hall'') \<and>
   effect_target (restored_event ''light.kitchen''
       [(''state'', VStr ''on''), (''brightness'', VInt 200)]) \<noteq> Some (VStr ''light.hall'') \<and>
   effect_target (turn_on_command ex_manager ''light.kitchen''
       [(''state'', VStr ''on''), (''brightness'', VInt 200)]) \<noteq> Some (VStr ''light.none'') \<and>
   effect_target (restored_event ''light.kitchen''
       [(''state'', VStr ''on''), (''brightness'', VInt 200)]) \<noteq> Some (VStr ''light.none'')"
proof -
  let ?c = "ServiceCall DOMAIN SERVICE_RESTORE_STATE
              [''light.kitchen'', ''light.hall'', ''light.none'']"
  let ?sd = "[(''state'', VStr ''on''), (''brightness'', VInt 200)]"
  let ?tr = "[turn_on_command ex_manager ''light.kitchen'' ?sd,
              restored_event ''light.kitchen'' ?sd]"
  have st: "states ex_manager =
      [(''light.kitchen'', ?sd), (''light.hall'', [(''state'', VStr ''off'')])]"
    by (simp add: ex_manager_def)
  have ack: "\<And>tr d s sd. async_call ex_hass tr d s sd = None" by (simp add: ex_hass_def)
  have run: "handle_restore_state ex_hass ex_manager ?c = (ex_manager, ?tr, None)"
    by (simp add: handle_restore_state_loop st dict_getitem_def ack STATE_ON_def
          turn_on_command_def restored_event_def)
  have wf: "store_wf ex_manager"
    by (simp add: store_wf_def st snapshot_wf_def dict_getitem_def light_attrs_def const_defs)
  have off: "\<not> snapshot_on ex_manager ''light.hall''" "\<not> snapshot_on ex_manager ''light.none''"
    by (simp_all add: snapshot_on_def st dict_getitem_def STATE_ON_def)
  note t = restore_only_turns_on_on_snapshots[OF run, THEN conjunct2, rule_format, OF wf]
  have "\<forall>eff \<in> set ?tr. effect_target eff \<noteq> Some (VStr ''light.hall'') \<and>
      effect_target eff \<noteq> Some (VStr ''light.none'')"
    using t[OF off(1)] t[OF off(2)] by blast
  then have "effect_target (turn_on_command ex_manager ''light.kitchen'' ?sd) \<noteq>
        Some (VStr ''light.hall'')"
    and "effect_target (restored_event ''light.kitchen'' ?sd) \<noteq> Some (VStr ''light.hall'')"
    and "effect_target (turn_on_command ex_manager ''light.kitchen'' ?sd) \<noteq>
        Some (VStr ''light.none'')"
    and "effect_target (restored_event ''light.kitchen'' ?sd) \<noteq> Some (VStr ''light.none'')"
    by simp_all
  then show ?thesis using run wf off by blast
qed

subsection \<open>A failing command\<close>

lemma restore_loop_fails:
  assumes "dict_getitem (states m) eid = Some sd"
    and "dict_getitem sd ''state'' = Some (VStr STATE_ON)"
    and "async_call h tr ''light'' SERVICE_TURN_ON (restore_service_data eid trn sd) = Some err"
  shows "restore_loop h m trn tr (eid # ys) =
    (m, tr @ [AsyncCall ''light'' SERVICE_TURN_ON (restore_service_data eid trn sd)], Some err)"
  using assms by (simp add: Let_def)

text \<open>
  C4. When the identifiers before the k-th are restored without error and the turn-on
  command for the k-th fails, the restore ends with that error: its effects are those
  of the identifiers before, then the failed command, and nothing for the identifiers
  after it, whatever they are. The manager a restore returns is the manager it was
  given, whether it fails or not.
\<close>

theorem restore_stops_at_failed_command:
  assumes "handle_restore_state h m (ServiceCall d s xs) = (m0, tr, None)"
    and "dict_getitem (states m) eid = Some sd"
    and "dict_getitem sd ''state'' = Some (VStr STATE_ON)"
    and "async_call h tr ''light'' SERVICE_TURN_ON
           (restore_service_data eid (configured_transition m) sd) = Some err"
  shows "handle_restore_state h m (ServiceCall d s (xs @ eid # ys)) =
      (m, tr @ [turn_on_command m eid sd], Some err) \<and>
    fst (handle_restore_state h' m c) = m"
proof
  have p: "restore_loop h m (configured_transition m) [] xs = (m0, tr, None)"
    using assms(1) by (simp add: handle_restore_state_loop)
  show "handle_restore_state h m (ServiceCall d s (xs @ eid # ys)) =
      (m, tr @ [turn_on_command m eid sd], Some err)"
    using restore_loop_append[OF p, of "eid # ys"] restore_loop_fails[OF assms(2,3,4), of ys]
    by (simp add: handle_restore_state_loop turn_on_command_def)
  show "fst (handle_restore_state h' m c) = m" by (rule handle_restore_state_manager)
qed

theorem restore_stops_at_failed_command_witness:
  "handle_restore_state ex_hass_flaky ex_manager_both_on
      (ServiceCall DOMAIN SERVICE_RESTORE_STATE [''light.kitchen'']) =
     (ex_manager_both_on,
      [turn_on_command ex_manager_both_on ''light.kitchen''
         [(''state'', VStr ''on''), (''brightness'', VInt 200)],
       restored_event ''light.kitchen'' [(''state'', VStr ''on''), (''brightness'', VInt 200)]],
      None) \<and>
   handle_restore_state ex_hass_flaky ex_manager_both_on
      (ServiceCall DOMAIN SERVICE_RESTORE_STATE
         [''light.kitchen'', ''light.hall'', ''light.kitchen'']) =
     (ex_manager_both_on,
      [turn_on_command ex_manager_both_on ''light.kitchen''
         [(''state'', VStr ''on''), (''brightness'', VInt 200)],
       restored_event ''light.kitchen'' [(''state'', VStr ''on''), (''brightness'', VInt 200)],
       turn_on_command ex_manager_both_on ''light.hall'' [(''state'', VStr ''on'')]],
      Some (ServiceCallError ''no acknowledgement''))"
proof -
  let ?sd = "[(''state'', VStr ''on''), (''brightness'', VInt 200)]"
  let ?tr = "[turn_on_command ex_manager_both_on ''light.kitchen'' ?sd,
              restored_event ''light.kitchen'' ?sd]"
  have st: "states ex_manager_both_on =
      [(''light.kitchen'', ?sd), (''light.hall'', [(''state'', VStr ''on'')])]"
    by (simp add: ex_manager_both_on_def)
  have ack: "\<And>d s sd. async_call ex_hass_flaky [] d s sd = None"
    by (simp add: ex_hass_flaky_def)
  have nack: "\<And>d s sd. async_call ex_hass_flaky ?tr d s sd =
      Some (ServiceCallError ''no acknowledgement'')"
    by (simp add: ex_hass_flaky_def)
  have run: "handle_restore_state ex_hass_flaky ex_manager_both_on
      (ServiceCall DOMAIN SERVICE_RESTORE_STATE [''light.kitchen'']) =
      (ex_manager_both_on, ?tr, None)"
    by (simp add: handle_restore_state_loop st dict_getitem_def ack STATE_ON_def
          turn_on_command_def restored_event_def)
  have s: "dict_getitem (states ex_manager_both_on) ''light.hall'' =
      Some [(''state'', VStr ''on'')]"
    by (simp add: st dict_getitem_def)
  have o: "dict_getitem [(''state'', VStr ''on'')] ''state'' = Some (VStr STATE_ON)"
    by (simp add: dict_getitem_def STATE_ON_def)
  note t = restore_stops_at_failed_command[OF run s o nack, where ys = "[''light.kitchen'']",
      THEN conjunct1]
  show ?thesis using run t by simp
qed

end
